theory Spec2Isabelle
  imports Complex_Main
begin

section \<open>JavaScript numbers\<close>

text \<open>
  The homepage script \<^verbatim>\<open>src/js/main.js\<close> computes with JavaScript numbers, which are IEEE
  doubles. The embedding computes exactly where doubles do: \<open>Finite i\<close> is the integer
  \<open>i\<close>, of magnitude below \<open>2^53\<close> (both zeros are \<open>Finite 0\<close>), and \<open>NaN\<close> is \<^verbatim>\<open>NaN\<close>.
  Every other double (a fraction, an integer from \<open>2^53\<close> on, an infinity) is \<open>Other d\<close>,
  with \<open>d\<close> a value of the platform's own. What an operation gives on such numbers, or
  when an exact result leaves the safe integers, is the platform's answer: the
  operations of the platform are a parameter of the embedding, as \<^verbatim>\<open>JSON.parse\<close> is. No
  operation computes on a \<open>Finite i\<close> whose \<open>i\<close> is not safe: that too is left to the
  platform.
\<close>

datatype js_error = TypeError

datatype 'd jsnum = Finite int | NaN | Other 'd

definition safe :: "int \<Rightarrow> bool" where
  "safe i = (\<bar>i\<bar> < 2 ^ 53)"

datatype inexact_op =
    OpAdd
  | OpSub
  | OpRem
  | OpFloorQuot int
  | OpFloorQuotRem int int
  | OpTimeClip

record 'd platform =
  inexact :: "inexact_op \<Rightarrow> 'd jsnum list \<Rightarrow> 'd jsnum"
  inexact_nonpositive :: "'d jsnum \<Rightarrow> bool"
  inexact_to_string :: "'d jsnum \<Rightarrow> string"

text \<open>
  \<^verbatim>\<open>a + b\<close> and \<^verbatim>\<open>a - b\<close>: exact on safe integers while the result is safe, \<^verbatim>\<open>NaN\<close> when
  an operand is. \<^verbatim>\<open>a % b\<close>: the remainder of two safe integers takes the sign of the
  dividend and is \<^verbatim>\<open>NaN\<close> for a zero divisor. \<^verbatim>\<open>a <= 0\<close> is false for \<^verbatim>\<open>NaN\<close>.
\<close>

fun num_add :: "'d platform \<Rightarrow> 'd jsnum \<Rightarrow> 'd jsnum \<Rightarrow> 'd jsnum" where
  "num_add P (Finite a) (Finite b) =
     (if safe a \<and> safe b \<and> safe (a + b) then Finite (a + b)
      else inexact P OpAdd [Finite a, Finite b])"
| "num_add P NaN _ = NaN"
| "num_add P _ NaN = NaN"
| "num_add P a b = inexact P OpAdd [a, b]"

fun num_sub :: "'d platform \<Rightarrow> 'd jsnum \<Rightarrow> 'd jsnum \<Rightarrow> 'd jsnum" where
  "num_sub P (Finite a) (Finite b) =
     (if safe a \<and> safe b \<and> safe (a - b) then Finite (a - b)
      else inexact P OpSub [Finite a, Finite b])"
| "num_sub P NaN _ = NaN"
| "num_sub P _ NaN = NaN"
| "num_sub P a b = inexact P OpSub [a, b]"

fun num_rem :: "'d platform \<Rightarrow> 'd jsnum \<Rightarrow> 'd jsnum \<Rightarrow> 'd jsnum" where
  "num_rem P (Finite a) (Finite b) =
     (if safe a \<and> safe b then (if b = 0 then NaN else Finite (sgn a * (\<bar>a\<bar> mod \<bar>b\<bar>)))
      else inexact P OpRem [Finite a, Finite b])"
| "num_rem P NaN _ = NaN"
| "num_rem P _ NaN = NaN"
| "num_rem P a b = inexact P OpRem [a, b]"

fun num_nonpositive :: "'d platform \<Rightarrow> 'd jsnum \<Rightarrow> bool" where
  "num_nonpositive P (Finite a) = (if safe a then a \<le> 0 else inexact_nonpositive P (Finite a))"
| "num_nonpositive P NaN = False"
| "num_nonpositive P (Other d) = inexact_nonpositive P (Other d)"

text \<open>\<^verbatim>\<open>String(n)\<close>: decimal digits for a safe integer, a minus sign for a negative one.\<close>

definition digit_char :: "nat \<Rightarrow> char" where
  "digit_char d = ''0123456789'' ! d"

fun nat_to_string :: "nat \<Rightarrow> string" where
  "nat_to_string n =
     (if n < 10 then [digit_char n] else nat_to_string (n div 10) @ [digit_char (n mod 10)])"

declare nat_to_string.simps [simp del]

definition int_to_string :: "int \<Rightarrow> string" where
  "int_to_string i = (if i < 0 then CHR ''-'' # nat_to_string (nat (- i)) else nat_to_string (nat i))"

fun num_to_string :: "'d platform \<Rightarrow> 'd jsnum \<Rightarrow> string" where
  "num_to_string P (Finite i) = (if safe i then int_to_string i else inexact_to_string P (Finite i))"
| "num_to_string P NaN = ''NaN''"
| "num_to_string P (Other d) = inexact_to_string P (Other d)"

section \<open>JavaScript values read from storage\<close>

text \<open>
  The values \<^verbatim>\<open>JSON.parse\<close> returns, plus \<^verbatim>\<open>undefined\<close>, which a property read yields for a
  missing property. A string is a list of characters, and its \<^verbatim>\<open>length\<close> is the length of
  that list. An object is the list of its own properties.
\<close>

datatype 'd jsval =
    JUndefined
  | JNull
  | JBool bool
  | JNum "'d jsnum"
  | JStr string
  | JArr "'d jsval list"
  | JObj "(string \<times> 'd jsval) list"

text \<open>The outcome of running a statement sequence: it completes, or an exception leaves it.\<close>

datatype completion = Normal | Throw js_error

text \<open>
  \<^verbatim>\<open>String(v)\<close> for any value. An array joins the strings of its elements with commas, with
  the empty string for \<^verbatim>\<open>null\<close> and \<^verbatim>\<open>undefined\<close>. A plain object gives
  \<^verbatim>\<open>[object Object]\<close> through the inherited \<^verbatim>\<open>toString\<close>; when JSON gave it an own property
  of that name, the property is not callable and the conversion throws.
\<close>

fun to_string :: "'d platform \<Rightarrow> 'd jsval \<Rightarrow> js_error + string"
  and join :: "'d platform \<Rightarrow> 'd jsval list \<Rightarrow> js_error + string" where
  "to_string P JUndefined = Inr ''undefined''"
| "to_string P JNull = Inr ''null''"
| "to_string P (JBool b) = Inr (if b then ''true'' else ''false'')"
| "to_string P (JNum n) = Inr (num_to_string P n)"
| "to_string P (JStr s) = Inr s"
| "to_string P (JArr xs) = join P xs"
| "to_string P (JObj kvs) =
     (if ''toString'' \<in> fst ` set kvs then Inl TypeError else Inr ''[object Object]'')"
| "join P [] = Inr ''''"
| "join P (x # xs) =
     (case (if x = JUndefined \<or> x = JNull then Inr '''' else to_string P x) of
        Inl e \<Rightarrow> Inl e
      | Inr s \<Rightarrow>
          (if xs = [] then Inr s
           else (case join P xs of Inl e \<Rightarrow> Inl e | Inr r \<Rightarrow> Inr (s @ '','' @ r))))"

text \<open>\<^verbatim>\<open>ToPrimitive\<close>: arrays and objects become their strings, primitives stay.\<close>

fun to_primitive :: "'d platform \<Rightarrow> 'd jsval \<Rightarrow> js_error + 'd jsval" where
  "to_primitive P (JArr xs) = (case join P xs of Inl e \<Rightarrow> Inl e | Inr s \<Rightarrow> Inr (JStr s))"
| "to_primitive P (JObj kvs) =
     (case to_string P (JObj kvs) of Inl e \<Rightarrow> Inl e | Inr s \<Rightarrow> Inr (JStr s))"
| "to_primitive P v = Inr v"

text \<open>\<^verbatim>\<open>ToNumber\<close> on the primitives that are not strings.\<close>

fun to_number :: "'d jsval \<Rightarrow> 'd jsnum" where
  "to_number JNull = Finite 0"
| "to_number (JBool b) = Finite (if b then 1 else 0)"
| "to_number (JNum n) = n"
| "to_number _ = NaN"

fun is_string :: "'d jsval \<Rightarrow> bool" where
  "is_string (JStr _) = True"
| "is_string _ = False"

text \<open>The binary \<^verbatim>\<open>a + b\<close>: concatenation when either primitive is a string, else addition.\<close>

definition js_plus :: "'d platform \<Rightarrow> 'd jsval \<Rightarrow> 'd jsval \<Rightarrow> js_error + 'd jsval" where
  "js_plus P a b =
     (case to_primitive P a of
        Inl e \<Rightarrow> Inl e
      | Inr pa \<Rightarrow>
          (case to_primitive P b of
             Inl e \<Rightarrow> Inl e
           | Inr pb \<Rightarrow>
               (if is_string pa \<or> is_string pb then
                  (case to_string P pa of
                     Inl e \<Rightarrow> Inl e
                   | Inr sa \<Rightarrow>
                       (case to_string P pb of Inl e \<Rightarrow> Inl e | Inr sb \<Rightarrow> Inr (JStr (sa @ sb))))
                else Inr (JNum (num_add P (to_number pa) (to_number pb))))))"

text \<open>Truthiness, as \<^verbatim>\<open>||\<close> and \<^verbatim>\<open>?:\<close> test it. Among the numbers only the zeros and
  \<^verbatim>\<open>NaN\<close> are falsy.\<close>

fun falsy :: "'d jsval \<Rightarrow> bool" where
  "falsy JUndefined = True"
| "falsy JNull = True"
| "falsy (JBool b) = (\<not> b)"
| "falsy (JNum n) = (n = Finite 0 \<or> n = NaN)"
| "falsy (JStr s) = (s = [])"
| "falsy _ = False"

text \<open>\<^verbatim>\<open>item.qty\<close>: reading a property of \<^verbatim>\<open>null\<close> or \<^verbatim>\<open>undefined\<close> throws; an object gives
  its own property; nothing else has a property of that name.\<close>

fun get_qty :: "'d jsval \<Rightarrow> js_error + 'd jsval" where
  "get_qty JUndefined = Inl TypeError"
| "get_qty JNull = Inl TypeError"
| "get_qty (JObj kvs) = Inr (case map_of kvs ''qty'' of None \<Rightarrow> JUndefined | Some v \<Rightarrow> v)"
| "get_qty _ = Inr JUndefined"

text \<open>\<^verbatim>\<open>wishlist.length\<close>. A string or an array has fewer than \<open>2^32\<close> elements.\<close>

fun get_length :: "'d jsval \<Rightarrow> js_error + 'd jsval" where
  "get_length JUndefined = Inl TypeError"
| "get_length JNull = Inl TypeError"
| "get_length (JStr s) = Inr (JNum (Finite (int (length s))))"
| "get_length (JArr xs) = Inr (JNum (Finite (int (length xs))))"
| "get_length (JObj kvs) = Inr (case map_of kvs ''length'' of None \<Rightarrow> JUndefined | Some v \<Rightarrow> v)"
| "get_length _ = Inr JUndefined"

text \<open>
  \<^verbatim>\<open>cart.reduce((sum, item) => sum + (item.qty || 1), 0)\<close>, the accumulator \<^verbatim>\<open>sum\<close>
  written \<open>acc\<close>. Only an array has the method; on every other JSON value the call throws.
\<close>

definition add_item :: "'d platform \<Rightarrow> 'd jsval \<Rightarrow> 'd jsval \<Rightarrow> js_error + 'd jsval" where
  "add_item P acc item =
     (case get_qty item of
        Inl e \<Rightarrow> Inl e
      | Inr q \<Rightarrow> js_plus P acc (if falsy q then JNum (Finite 1) else q))"

fun reduce_from :: "'d platform \<Rightarrow> 'd jsval \<Rightarrow> 'd jsval list \<Rightarrow> js_error + 'd jsval" where
  "reduce_from P acc [] = Inr acc"
| "reduce_from P acc (item # items) =
     (case add_item P acc item of Inl e \<Rightarrow> Inl e | Inr acc' \<Rightarrow> reduce_from P acc' items)"

fun cart_reduce :: "'d platform \<Rightarrow> 'd jsval \<Rightarrow> js_error + 'd jsval" where
  "cart_reduce P (JArr items) = reduce_from P (JNum (Finite 0)) items"
| "cart_reduce P _ = Inl TypeError"

section \<open>The document and the page state\<close>

text \<open>
  The document is a store of elements addressed by their position in document order, so
  that two queries can return the same element. An element carries what the script
  reads and writes: its attributes (\<^verbatim>\<open>id\<close>, \<^verbatim>\<open>data-tab\<close>, \<^verbatim>\<open>data-panel\<close>,
  \<^verbatim>\<open>data-split\<close>), its class list, its text and the number of its child elements. The
  tree itself is not modelled: the elements whose content the script overwrites are taken
  to contain no element of the store. Inline styles and the scroll position are not part
  of the state either; no operation reads them back.
\<close>

record element =
  attrs :: "(string \<times> string) list"
  classList :: "string list"
  textContent :: string
  childElementCount :: nat

type_synonym node = nat

definition getAttribute :: "element \<Rightarrow> string \<Rightarrow> string option" where
  "getAttribute e k = map_of (attrs e) k"

definition has_id :: "string \<Rightarrow> element \<Rightarrow> bool" where
  "has_id i e = (getAttribute e ''id'' = Some i)"

definition has_class :: "string \<Rightarrow> element \<Rightarrow> bool" where
  "has_class c e = (c \<in> set (classList e))"

definition querySelectorAll :: "(element \<Rightarrow> bool) \<Rightarrow> element list \<Rightarrow> node list" where
  "querySelectorAll sel els = filter (\<lambda>i. sel (els ! i)) [0..<length els]"

definition querySelector :: "(element \<Rightarrow> bool) \<Rightarrow> element list \<Rightarrow> node option" where
  "querySelector sel els = (case querySelectorAll sel els of [] \<Rightarrow> None | i # _ \<Rightarrow> Some i)"

text \<open>\<^verbatim>\<open>classList.add\<close>, \<^verbatim>\<open>classList.remove\<close> and \<^verbatim>\<open>classList.toggle(name, force)\<close>.\<close>

definition class_add :: "string \<Rightarrow> element \<Rightarrow> element" where
  "class_add c e = (if c \<in> set (classList e) then e else e\<lparr>classList := classList e @ [c]\<rparr>)"

definition class_remove :: "string \<Rightarrow> element \<Rightarrow> element" where
  "class_remove c e = e\<lparr>classList := filter (\<lambda>x. x \<noteq> c) (classList e)\<rparr>"

definition class_toggle :: "string \<Rightarrow> bool \<Rightarrow> element \<Rightarrow> element" where
  "class_toggle c force e = (if force then class_add c e else class_remove c e)"

text \<open>Assigning \<^verbatim>\<open>textContent\<close> replaces the children of the element by one text.\<close>

definition set_text :: "string \<Rightarrow> element \<Rightarrow> element" where
  "set_text t e = e\<lparr>textContent := t, childElementCount := 0\<rparr>"

definition update_at :: "node \<Rightarrow> (element \<Rightarrow> element) \<Rightarrow> element list \<Rightarrow> element list" where
  "update_at i f els = (if i < length els then els[i := f (els ! i)] else els)"

text \<open>
  The page: the browser's side (local storage, the colour-scheme signal, the root
  element's \<^verbatim>\<open>data-theme\<close> attribute, the elements), the script's \<^verbatim>\<open>state\<close> object, and the
  references its closures captured when \<^verbatim>\<open>init\<close> ran: a handler exists exactly where a
  reference is set. The countdown target is the time value of the date, \<open>None\<close> for
  \<^verbatim>\<open>null\<close>.
\<close>

record 'd page =
  localStorage :: "string \<rightharpoonup> string"
  prefers_dark :: bool
  data_theme :: "string option"
  elements :: "element list"
  testimonialIndex :: "'d jsnum"
  testimonialTimer :: bool
  countdownTarget :: "'d jsnum option"
  toggle :: "node option"
  heroBg :: "node option"
  observed :: "node list"
  tabs :: "node list"
  panels :: "node list"
  countdown_timer :: bool
  track :: "node option"
  slides :: nat
  dots :: "node list"
  prev_button :: "node option"
  next_button :: "node option"
  back_to_top :: "node option"
  arrival_track :: "node option"

section \<open>Badge sync\<close>

text \<open>
  \<^verbatim>\<open>loadStorage(key, fallback)\<close>: the fallback for a missing key, for the empty string and
  for a text that \<^verbatim>\<open>JSON.parse\<close> rejects. The parser belongs to the platform and is a
  parameter: \<open>parse text = None\<close> when it throws.
\<close>

definition loadStorage ::
  "(string \<Rightarrow> 'd jsval option) \<Rightarrow> 'd page \<Rightarrow> string \<Rightarrow> 'd jsval \<Rightarrow> 'd jsval" where
  "loadStorage parse s key fallback =
     (case localStorage s key of
        None \<Rightarrow> fallback
      | Some v \<Rightarrow>
          (if v = [] then fallback
           else (case parse v of None \<Rightarrow> fallback | Some j \<Rightarrow> j)))"

text \<open>\<^verbatim>\<open>badge.textContent = v\<close>: \<^verbatim>\<open>null\<close> and \<^verbatim>\<open>undefined\<close> clear the text, every other value
  is converted to a string, which can throw.\<close>

definition assign_text :: "'d platform \<Rightarrow> node \<Rightarrow> 'd jsval \<Rightarrow> 'd page \<Rightarrow> js_error + 'd page" where
  "assign_text P b v s =
     (if v = JUndefined \<or> v = JNull then Inr (s\<lparr>elements := update_at b (set_text []) (elements s)\<rparr>)
      else (case to_string P v of
              Inl e \<Rightarrow> Inl e
            | Inr t \<Rightarrow> Inr (s\<lparr>elements := update_at b (set_text t) (elements s)\<rparr>)))"

definition syncBadges ::
  "'d platform \<Rightarrow> (string \<Rightarrow> 'd jsval option) \<Rightarrow> 'd page \<Rightarrow> completion \<times> 'd page" where
  "syncBadges P parse s =
     (let cart = loadStorage parse s ''veloura-cart'' (JArr []);
          wishlist = loadStorage parse s ''veloura-wishlist'' (JArr [])
      in case cart_reduce P cart of
           Inl e \<Rightarrow> (Throw e, s)
         | Inr cartCount \<Rightarrow>
            (case get_length wishlist of
               Inl e \<Rightarrow> (Throw e, s)
             | Inr wishlistCount \<Rightarrow>
                (let cartBadge = querySelector (has_id ''cart-count'') (elements s);
                     wishlistBadge = querySelector (has_id ''wishlist-count'') (elements s)
                 in case (case cartBadge of None \<Rightarrow> Inr s
                          | Some b \<Rightarrow> assign_text P b cartCount s) of
                      Inl e \<Rightarrow> (Throw e, s)
                    | Inr s1 \<Rightarrow>
                       (case (case wishlistBadge of None \<Rightarrow> Inr s1
                              | Some b \<Rightarrow> assign_text P b wishlistCount s1) of
                          Inl e \<Rightarrow> (Throw e, s1)
                        | Inr s2 \<Rightarrow> (Normal, s2)))))"

section \<open>Theme control\<close>

text \<open>
  \<^verbatim>\<open>initTheme\<close> takes the stored preference, or the system's colour scheme when nothing
  (or the empty string) is stored, writes it to the root element and labels the toggle
  button. The click handler is registered only when the button exists.
\<close>

definition theme_label :: "string \<Rightarrow> string" where
  "theme_label theme = (if theme = ''dark'' then ''Light'' else ''Dark'')"

definition initTheme :: "'d page \<Rightarrow> 'd page" where
  "initTheme s =
     (let tg = querySelector (has_id ''theme-toggle'') (elements s);
          system = (if prefers_dark s then ''dark'' else ''light'');
          theme = (case localStorage s ''veloura-theme'' of
                     None \<Rightarrow> system
                   | Some stored \<Rightarrow> if stored = [] then system else stored)
      in s\<lparr>data_theme := Some theme,
           elements := (case tg of None \<Rightarrow> elements s
                        | Some b \<Rightarrow> update_at b (set_text (theme_label theme)) (elements s)),
           toggle := tg\<rparr>)"

definition theme_click :: "'d page \<Rightarrow> 'd page" where
  "theme_click s =
     (case toggle s of
        None \<Rightarrow> s
      | Some b \<Rightarrow>
          (let current = data_theme s;
               next_theme = (if current = Some ''dark'' then ''light'' else ''dark'')
           in s\<lparr>data_theme := Some next_theme,
                localStorage := (localStorage s)(''veloura-theme'' \<mapsto> next_theme),
                elements := update_at b (set_text (theme_label next_theme)) (elements s)\<rparr>))"

section \<open>Headline split, parallax, reveal\<close>

text \<open>
  \<^verbatim>\<open>title.textContent.trim().split(" ")\<close>, then one \<^verbatim>\<open>span\<close> per word holding the word and a
  space. The spans have no id and no class, so no later query selects them; the store
  records their text and their number on the title. White space is the ASCII white space.
\<close>

definition is_space :: "char \<Rightarrow> bool" where
  "is_space c = (c \<in> {CHR '' '', CHR 0x09, CHR 0x0A, CHR 0x0B, CHR 0x0C, CHR 0x0D})"

definition trim :: "string \<Rightarrow> string" where
  "trim t = rev (dropWhile is_space (rev (dropWhile is_space t)))"

fun split_spaces :: "string \<Rightarrow> string list" where
  "split_spaces [] = [[]]"
| "split_spaces (c # cs) =
     (if c = CHR '' '' then [] # split_spaces cs
      else (case split_spaces cs of [] \<Rightarrow> [[c]] | w # ws \<Rightarrow> (c # w) # ws))"

definition initHeadlineSplit :: "'d page \<Rightarrow> 'd page" where
  "initHeadlineSplit s =
     (case querySelector (\<lambda>e. getAttribute e ''data-split'' = Some ''words'') (elements s) of
        None \<Rightarrow> s
      | Some title \<Rightarrow>
          (let ws = split_spaces (trim (textContent (elements s ! title)))
           in s\<lparr>elements :=
                  update_at title
                    (\<lambda>e. e\<lparr>textContent := concat (map (\<lambda>w. w @ '' '') ws),
                            childElementCount := length ws\<rparr>)
                    (elements s)\<rparr>))"

definition initParallax :: "'d page \<Rightarrow> 'd page" where
  "initParallax s = s\<lparr>heroBg := querySelector (has_class ''hero-bg'') (elements s)\<rparr>"

text \<open>\<^verbatim>\<open>initReveal\<close> observes every \<^verbatim>\<open>.reveal\<close> element; the observer's callback receives
  entries (target, isIntersecting) for observed targets.\<close>

definition initReveal :: "'d page \<Rightarrow> 'd page" where
  "initReveal s = s\<lparr>observed := querySelectorAll (has_class ''reveal'') (elements s)\<rparr>"

definition reveal_callback :: "(node \<times> bool) list \<Rightarrow> 'd page \<Rightarrow> 'd page" where
  "reveal_callback entries s =
     s\<lparr>elements :=
         fold (\<lambda>(target, isIntersecting) els.
                 if isIntersecting then update_at target (class_add ''is-visible'') els else els)
              entries (elements s)\<rparr>"

section \<open>Tabs\<close>

text \<open>
  \<^verbatim>\<open>initTabs\<close> registers nothing when there is no tab. The click handler of a tab walks the
  tabs, then the panels, in document order.
\<close>

definition initTabs :: "'d page \<Rightarrow> 'd page" where
  "initTabs s =
     (let ts = querySelectorAll (has_class ''tab'') (elements s);
          ps = querySelectorAll (has_class ''tab-panel'') (elements s)
      in if ts = [] then s else s\<lparr>tabs := ts, panels := ps\<rparr>)"

definition toggle_panel :: "string option \<Rightarrow> element \<Rightarrow> element" where
  "toggle_panel target e = class_toggle ''is-active'' (getAttribute e ''data-panel'' = target) e"

definition tab_click :: "node \<Rightarrow> 'd page \<Rightarrow> 'd page" where
  "tab_click tab s =
     (let target = getAttribute (elements s ! tab) ''data-tab'';
          els1 = fold (\<lambda>btn. update_at btn (class_toggle ''is-active'' (btn = tab))) (tabs s)
                   (elements s);
          els2 = fold (\<lambda>panel. update_at panel (toggle_panel target)) (panels s) els1
      in s\<lparr>elements := els2\<rparr>)"

section \<open>Countdown\<close>

text \<open>
  A date is its time value in milliseconds; a clock reading is a safe integer.
  \<^verbatim>\<open>new Date(t)\<close> keeps a time of magnitude up to 8.64e15 and is an invalid date
  (\<^verbatim>\<open>NaN\<close>) beyond. For an integer \<open>r\<close> of magnitude below \<open>2^52\<close> and a positive divisor
  \<open>c\<close> below \<open>2^27\<close>, as those of this script are, \<^verbatim>\<open>Math.floor(r / c)\<close> and
  \<^verbatim>\<open>Math.floor((r / c) % m)\<close> are computed on the exact quotient: the double nearest to
  it lies between the same two integers, so the floors agree. \<^verbatim>\<open>x % m\<close> keeps the sign of
  \<open>x\<close>. \<^verbatim>\<open>pad\<close> is \<^verbatim>\<open>String(value).padStart(2, "0")\<close>.
\<close>

fun time_clip :: "'d platform \<Rightarrow> 'd jsnum \<Rightarrow> 'd jsnum" where
  "time_clip P (Finite t) = (if \<bar>t\<bar> \<le> 8640000000000000 then Finite t else NaN)"
| "time_clip P NaN = NaN"
| "time_clip P (Other d) = inexact P OpTimeClip [Other d]"

definition truncate :: "rat \<Rightarrow> int" where
  "truncate x = (if 0 \<le> x then \<lfloor>x\<rfloor> else \<lceil>x\<rceil>)"

definition js_mod :: "rat \<Rightarrow> rat \<Rightarrow> rat" where
  "js_mod x m = x - m * of_int (truncate (x / m))"

definition exact_quotient :: "int \<Rightarrow> int \<Rightarrow> bool" where
  "exact_quotient r c = (\<bar>r\<bar> < 2 ^ 52 \<and> 0 < c \<and> c < 2 ^ 27)"

fun floor_quot :: "'d platform \<Rightarrow> 'd jsnum \<Rightarrow> int \<Rightarrow> 'd jsnum" where
  "floor_quot P (Finite r) c =
     (if exact_quotient r c then Finite \<lfloor>of_int r / of_int c :: rat\<rfloor>
      else inexact P (OpFloorQuot c) [Finite r])"
| "floor_quot P NaN c = NaN"
| "floor_quot P (Other d) c = inexact P (OpFloorQuot c) [Other d]"

fun floor_quot_rem :: "'d platform \<Rightarrow> 'd jsnum \<Rightarrow> int \<Rightarrow> int \<Rightarrow> 'd jsnum" where
  "floor_quot_rem P (Finite r) c m =
     (if exact_quotient r c \<and> 0 < m then Finite \<lfloor>js_mod (of_int r / of_int c) (of_int m)\<rfloor>
      else inexact P (OpFloorQuotRem c m) [Finite r])"
| "floor_quot_rem P NaN c m = NaN"
| "floor_quot_rem P (Other d) c m = inexact P (OpFloorQuotRem c m) [Other d]"

definition pad :: "'d platform \<Rightarrow> 'd jsnum \<Rightarrow> string" where
  "pad P v = (let t = num_to_string P v in replicate (2 - length t) CHR ''0'' @ t)"

definition three_days :: int where
  "three_days = 3 * 24 * 60 * 60 * 1000"

text \<open>The target as a number: \<^verbatim>\<open>null\<close>, the value before \<^verbatim>\<open>initCountdown\<close>, counts as 0.\<close>

definition target_num :: "'d page \<Rightarrow> 'd jsnum" where
  "target_num s = (case countdownTarget s of None \<Rightarrow> Finite 0 | Some t \<Rightarrow> t)"

text \<open>\<^verbatim>\<open>document.querySelector(sel).textContent = t\<close>: a missing element throws. The four
  assignments of \<^verbatim>\<open>tick\<close> run in order and stop at the first that throws.\<close>

definition write_field :: "string \<Rightarrow> string \<Rightarrow> 'd page \<Rightarrow> js_error + 'd page" where
  "write_field i t s =
     (case querySelector (has_id i) (elements s) of
        None \<Rightarrow> Inl TypeError
      | Some b \<Rightarrow> Inr (s\<lparr>elements := update_at b (set_text t) (elements s)\<rparr>))"

fun write_fields :: "(string \<times> string) list \<Rightarrow> 'd page \<Rightarrow> completion \<times> 'd page" where
  "write_fields [] s = (Normal, s)"
| "write_fields ((i, t) # rest) s =
     (case write_field i t s of Inl e \<Rightarrow> (Throw e, s) | Inr s' \<Rightarrow> write_fields rest s')"

text \<open>
  \<^verbatim>\<open>tick\<close> reads the clock three times: \<open>now1\<close> for \<^verbatim>\<open>diff\<close>, \<open>now2\<close> for the new target,
  \<open>now3\<close> for \<^verbatim>\<open>remaining\<close>. An exception leaves the changes made before it.
\<close>

definition tick :: "'d platform \<Rightarrow> int \<Rightarrow> int \<Rightarrow> int \<Rightarrow> 'd page \<Rightarrow> completion \<times> 'd page" where
  "tick P now1 now2 now3 s =
     (let diff = num_sub P (target_num s) (Finite now1);
          s1 = (if num_nonpositive P diff
                then s\<lparr>countdownTarget :=
                         Some (time_clip P (num_add P (Finite now2) (Finite three_days)))\<rparr>
                else s);
          remaining = num_sub P (target_num s1) (Finite now3);
          days = floor_quot P remaining (1000 * 60 * 60 * 24);
          hours = floor_quot_rem P remaining (1000 * 60 * 60) 24;
          minutes = floor_quot_rem P remaining (1000 * 60) 60;
          seconds = floor_quot_rem P remaining 1000 60
      in write_fields
           [(''days'', pad P days), (''hours'', pad P hours),
            (''minutes'', pad P minutes), (''seconds'', pad P seconds)] s1)"

text \<open>\<^verbatim>\<open>initCountdown\<close>, with the clock reading \<open>now\<close> of its own and those of the first tick.
  The interval timer is set after the first tick, so not when that tick throws.\<close>

definition initCountdown ::
  "'d platform \<Rightarrow> int \<Rightarrow> int \<Rightarrow> int \<Rightarrow> int \<Rightarrow> 'd page \<Rightarrow> completion \<times> 'd page" where
  "initCountdown P now now1 now2 now3 s =
     (case querySelector (has_id ''days'') (elements s) of
        None \<Rightarrow> (Normal, s)
      | Some daysEl \<Rightarrow>
          (case tick P now1 now2 now3
                  (s\<lparr>countdownTarget :=
                       Some (time_clip P (num_add P (Finite now) (Finite three_days)))\<rparr>) of
             (Throw e, s1) \<Rightarrow> (Throw e, s1)
           | (Normal, s1) \<Rightarrow> (Normal, s1\<lparr>countdown_timer := True\<rparr>)))"

section \<open>Testimonial carousel\<close>

text \<open>
  \<^verbatim>\<open>initTestimonials\<close> empties the dots container and creates one button per slide. The
  buttons are new elements, put at the end of the store; they have no id, and only the
  carousel reaches them, through the container. The number of slides is a safe integer.
\<close>

definition new_dot :: "nat \<Rightarrow> element" where
  "new_dot index =
     \<lparr>attrs = [(''aria-label'', ''Go to testimonial '' @ nat_to_string (index + 1))],
      classList = [''dot''], textContent = [], childElementCount = 0\<rparr>"

definition update :: "'d page \<Rightarrow> 'd page" where
  "update s =
     s\<lparr>elements :=
         fold (\<lambda>(idx, dot). update_at dot
                 (class_toggle ''is-active'' (Finite (int idx) = testimonialIndex s)))
              (zip [0..<length (dots s)] (dots s)) (elements s)\<rparr>"

definition goToSlide :: "'d platform \<Rightarrow> 'd jsnum \<Rightarrow> 'd page \<Rightarrow> 'd page" where
  "goToSlide P index s =
     update (s\<lparr>testimonialIndex :=
                 num_rem P (num_add P index (Finite (int (slides s)))) (Finite (int (slides s)))\<rparr>)"

definition next_slide :: "'d platform \<Rightarrow> 'd page \<Rightarrow> 'd page" where
  "next_slide P s = goToSlide P (num_add P (testimonialIndex s) (Finite 1)) s"

definition prev_slide :: "'d platform \<Rightarrow> 'd page \<Rightarrow> 'd page" where
  "prev_slide P s = goToSlide P (num_sub P (testimonialIndex s) (Finite 1)) s"

definition initTestimonials :: "'d page \<Rightarrow> 'd page" where
  "initTestimonials s =
     (case querySelector (has_id ''testimonial-track'') (elements s) of
        None \<Rightarrow> s
      | Some tr \<Rightarrow>
         (case querySelector (has_id ''testimonial-dots'') (elements s) of
            None \<Rightarrow> s
          | Some ds \<Rightarrow>
             (let n = childElementCount (elements s ! tr);
                  els1 = update_at ds (\<lambda>e. e\<lparr>textContent := [], childElementCount := n\<rparr>)
                           (elements s);
                  els2 = els1 @ map new_dot [0..<n]
              in update
                   (s\<lparr>elements := els2,
                      track := Some tr,
                      slides := n,
                      dots := [length els1..<length els1 + n],
                      prev_button := querySelector (has_id ''prev-testimonial'') els2,
                      next_button := querySelector (has_id ''next-testimonial'') els2,
                      testimonialTimer := True\<rparr>))))"

section \<open>Back to top, arrival skeleton\<close>

definition initBackToTop :: "'d page \<Rightarrow> 'd page" where
  "initBackToTop s = s\<lparr>back_to_top := querySelector (has_id ''back-to-top'') (elements s)\<rparr>"

text \<open>The scroll listeners, in the order of their registration: the parallax writes an
  inline style only; the back-to-top button is shown beyond 400 pixels.\<close>

definition scroll :: "rat \<Rightarrow> 'd page \<Rightarrow> 'd page" where
  "scroll scrollY s =
     (case back_to_top s of
        None \<Rightarrow> s
      | Some button \<Rightarrow>
          s\<lparr>elements := update_at button (class_toggle ''is-visible'' (scrollY > 400)) (elements s)\<rparr>)"

definition initArrivalSkeleton :: "'d page \<Rightarrow> 'd page" where
  "initArrivalSkeleton s =
     s\<lparr>arrival_track := querySelector (has_id ''arrival-track'') (elements s)\<rparr>"

text \<open>The timeout fires once: it removes the class and is spent.\<close>

definition arrival_timeout :: "'d page \<Rightarrow> 'd page" where
  "arrival_timeout s =
     (case arrival_track s of
        None \<Rightarrow> s
      | Some tr \<Rightarrow>
          s\<lparr>elements := update_at tr (class_remove ''is-loading'') (elements s),
            arrival_track := None\<rparr>)"

section \<open>The page's life: load, init, events\<close>

text \<open>The page as the module's evaluation leaves it: the \<^verbatim>\<open>state\<close> literal, no handler yet.\<close>

definition load :: "(string \<rightharpoonup> string) \<Rightarrow> bool \<Rightarrow> string option \<Rightarrow> element list \<Rightarrow> 'd page" where
  "load storage dark theme els =
     \<lparr>localStorage = storage, prefers_dark = dark, data_theme = theme, elements = els,
      testimonialIndex = Finite 0, testimonialTimer = False, countdownTarget = None,
      toggle = None, heroBg = None, observed = [], tabs = [], panels = [],
      countdown_timer = False, track = None, slides = 0, dots = [],
      prev_button = None, next_button = None, back_to_top = None, arrival_track = None\<rparr>"

text \<open>\<^verbatim>\<open>init\<close> runs the ten initialisers in order; an exception in one skips the rest.\<close>

definition init ::
  "'d platform \<Rightarrow> (string \<Rightarrow> 'd jsval option) \<Rightarrow> int \<Rightarrow> int \<Rightarrow> int \<Rightarrow> int \<Rightarrow> 'd page
     \<Rightarrow> completion \<times> 'd page" where
  "init P parse now now1 now2 now3 s =
     (case syncBadges P parse s of
        (Throw e, s1) \<Rightarrow> (Throw e, s1)
      | (Normal, s1) \<Rightarrow>
          (case initCountdown P now now1 now2 now3
                  (initTabs (initReveal (initParallax (initHeadlineSplit (initTheme s1))))) of
             (Throw e, s2) \<Rightarrow> (Throw e, s2)
           | (Normal, s2) \<Rightarrow>
               (Normal, initArrivalSkeleton (initBackToTop (initTestimonials s2)))))"

text \<open>
  What can happen afterwards. An event whose handler was not registered changes nothing:
  a click on a missing button, a tick without the interval timer, an intersection entry
  for an element that is not observed, a dot that does not exist.
\<close>

datatype event =
    ThemeToggleClick
  | AnimationFrame
  | Scroll rat
  | Intersection "(node \<times> bool) list"
  | TabClick node
  | Tick int int int
  | DotClick nat
  | PrevClick
  | NextClick
  | Autoplay
  | BackToTopClick
  | ArrivalTimeout

fun step :: "'d platform \<Rightarrow> event \<Rightarrow> 'd page \<Rightarrow> completion \<times> 'd page" where
  "step P ThemeToggleClick s = (Normal, theme_click s)"
| "step P AnimationFrame s = (Normal, s)"
| "step P (Scroll scrollY) s = (Normal, scroll scrollY s)"
| "step P (Intersection entries) s =
     (if set (map fst entries) \<subseteq> set (observed s) then (Normal, reveal_callback entries s)
      else (Normal, s))"
| "step P (TabClick tab) s =
     (if tab \<in> set (tabs s) then (Normal, tab_click tab s) else (Normal, s))"
| "step P (Tick now1 now2 now3) s =
     (if countdown_timer s then tick P now1 now2 now3 s else (Normal, s))"
| "step P (DotClick index) s =
     (if index < length (dots s) then (Normal, goToSlide P (Finite (int index)) s)
      else (Normal, s))"
| "step P PrevClick s = (if prev_button s = None then (Normal, s) else (Normal, prev_slide P s))"
| "step P NextClick s = (if next_button s = None then (Normal, s) else (Normal, next_slide P s))"
| "step P Autoplay s = (if testimonialTimer s then (Normal, next_slide P s) else (Normal, s))"
| "step P BackToTopClick s = (Normal, s)"
| "step P ArrivalTimeout s = (Normal, arrival_timeout s)"

text \<open>A run of events; the page lives on after a handler that threw.\<close>

definition run :: "'d platform \<Rightarrow> event list \<Rightarrow> 'd page \<Rightarrow> 'd page" where
  "run P evs s = fold (\<lambda>e p. snd (step P e p)) evs s"

section \<open>Predicates of the specification and sample documents\<close>

text \<open>A stored value the badge sync cannot use: the key is absent, or the text is empty,
  or \<^verbatim>\<open>JSON.parse\<close> rejects it (malformed JSON).\<close>

definition unusable :: "(string \<Rightarrow> 'd jsval option) \<Rightarrow> string option \<Rightarrow> bool" where
  "unusable parse v = (case v of None \<Rightarrow> True | Some t \<Rightarrow> t = [] \<or> parse t = None)"

text \<open>The elements after a badge, when it exists, received a text.\<close>

definition write_badge :: "node option \<Rightarrow> string \<Rightarrow> element list \<Rightarrow> element list" where
  "write_badge q t els = (case q of None \<Rightarrow> els | Some b \<Rightarrow> update_at b (set_text t) els)"

text \<open>A cart item of the storage layout: an object whose \<^verbatim>\<open>qty\<close> is missing or a number.\<close>

fun valid_item :: "'d jsval \<Rightarrow> bool" where
  "valid_item (JObj kvs) =
     (case map_of kvs ''qty'' of None \<Rightarrow> True | Some (JNum n) \<Rightarrow> True | Some _ \<Rightarrow> False)"
| "valid_item _ = False"

text \<open>The quantity of an item in the words of the specification: its \<^verbatim>\<open>qty\<close>, and 1 when it
  has none.\<close>

fun quantity_as_stated :: "'d jsval \<Rightarrow> 'd jsnum" where
  "quantity_as_stated (JObj kvs) =
     (case map_of kvs ''qty'' of Some (JNum n) \<Rightarrow> n | _ \<Rightarrow> Finite 1)"
| "quantity_as_stated _ = Finite 1"

text \<open>The quantity the badge counts: a \<^verbatim>\<open>qty\<close> that is zero (or \<^verbatim>\<open>NaN\<close>) counts as 1 too.\<close>

fun quantity_counted :: "'d jsval \<Rightarrow> 'd jsnum" where
  "quantity_counted (JObj kvs) =
     (case map_of kvs ''qty'' of
        Some (JNum n) \<Rightarrow> (if n = Finite 0 \<or> n = NaN then Finite 1 else n)
      | _ \<Rightarrow> Finite 1)"
| "quantity_counted _ = Finite 1"

text \<open>The sum of numbers as the platform adds them, from the left, starting at 0: exact
  while the partial sums are safe integers.\<close>

definition sum_numbers :: "'d platform \<Rightarrow> 'd jsnum list \<Rightarrow> 'd jsnum" where
  "sum_numbers P ns = foldl (num_add P) (Finite 0) ns"

text \<open>An item with the quantity 1.\<close>

definition one_item :: "'d jsval" where
  "one_item = JObj [(''qty'', JNum (Finite 1))]"

text \<open>The carousel runs: its timer is set, it has slides (fewer than \<open>2^52\<close>) and a dot
  for each, and the index is one of the slides.\<close>

definition carousel_ready :: "'d page \<Rightarrow> bool" where
  "carousel_ready s =
     (testimonialTimer s \<and> 0 < slides s \<and> int (slides s) < 2 ^ 52 \<and>
      length (dots s) = slides s \<and>
      (case testimonialIndex s of
         Finite i \<Rightarrow> 0 \<le> i \<and> i < int (slides s)
       | _ \<Rightarrow> False))"

text \<open>An element shows the class of a revealed element.\<close>

definition shown :: "element \<Rightarrow> bool" where
  "shown e = has_class ''is-visible'' e"

text \<open>
  Sample documents, each with the page its initialiser leaves. \<open>sample_parse\<close> agrees
  with \<^verbatim>\<open>JSON.parse\<close> on the texts the samples store. The samples stay within the safe
  integers, so no answer of \<open>sample_platform\<close> is ever used.
\<close>

definition sample_platform :: "unit platform" where
  "sample_platform =
     \<lparr>inexact = (\<lambda>op args. NaN), inexact_nonpositive = (\<lambda>d. False),
      inexact_to_string = (\<lambda>d. [])\<rparr>"

definition el :: "(string \<times> string) list \<Rightarrow> string list \<Rightarrow> element" where
  "el a c = \<lparr>attrs = a, classList = c, textContent = [], childElementCount = 0\<rparr>"

definition sample_parse :: "string \<Rightarrow> unit jsval option" where
  "sample_parse t =
     (if t = ''[{\"qty\":0}]'' then Some (JArr [JObj [(''qty'', JNum (Finite 0))]])
      else if t = ''[{\"qty\":2},{}]'' then Some (JArr [JObj [(''qty'', JNum (Finite 2))], JObj []])
      else if t = ''[{\"qty\":2},{\"qty\":null},{\"qty\":3}]'' then
        Some (JArr [JObj [(''qty'', JNum (Finite 2))], JObj [(''qty'', JNull)],
                    JObj [(''qty'', JNum (Finite 3))]])
      else if t = ''[{\"qty\":false},{\"qty\":4}]'' then
        Some (JArr [JObj [(''qty'', JBool False)], JObj [(''qty'', JNum (Finite 4))]])
      else if t = ''[{\"qty\":5},{\"qty\":\"\"}]'' then
        Some (JArr [JObj [(''qty'', JNum (Finite 5))], JObj [(''qty'', JStr [])]])
      else if t = ''[7,8,9]'' then Some (JArr [JNum (Finite 7), JNum (Finite 8), JNum (Finite 9)])
      else None)"

definition badge_page :: "string option \<Rightarrow> string option \<Rightarrow> unit page" where
  "badge_page cart wishlist =
     load (\<lambda>k. if k = ''veloura-cart'' then cart else if k = ''veloura-wishlist'' then wishlist
                else None)
       False None [el [(''id'', ''cart-count'')] [], el [(''id'', ''wishlist-count'')] []]"

definition theme_page :: "unit page" where
  "theme_page = load Map.empty True None [el [(''id'', ''theme-toggle'')] []]"

definition theme_started :: "unit page" where
  "theme_started = initTheme theme_page"

text \<open>A visit on which another theme name is stored.\<close>

definition tinted_page :: "unit page" where
  "tinted_page = load [''veloura-theme'' \<mapsto> ''blue''] True None [el [(''id'', ''theme-toggle'')] []]"

definition tinted_started :: "unit page" where
  "tinted_started = initTheme tinted_page"

definition carousel_page :: "unit page" where
  "carousel_page = load Map.empty False None
     [(el [(''id'', ''testimonial-track'')] [])\<lparr>childElementCount := 3\<rparr>,
      el [(''id'', ''testimonial-dots'')] [],
      el [(''id'', ''prev-testimonial'')] [], el [(''id'', ''next-testimonial'')] []]"

definition carousel_started :: "unit page" where
  "carousel_started = initTestimonials carousel_page"

definition tabs_page :: "unit page" where
  "tabs_page = load Map.empty False None
     [el [(''data-tab'', ''a'')] [''tab'', ''is-active''], el [(''data-tab'', ''b'')] [''tab''],
      el [(''data-panel'', ''a'')] [''tab-panel'', ''is-active''],
      el [(''data-panel'', ''b'')] [''tab-panel'']]"

definition tabs_started :: "unit page" where
  "tabs_started = initTabs tabs_page"

definition twin_panels_page :: "unit page" where
  "twin_panels_page = load Map.empty False None
     [el [(''data-tab'', ''a'')] [''tab'', ''is-active''], el [(''data-tab'', ''b'')] [''tab''],
      el [(''data-panel'', ''a'')] [''tab-panel'', ''is-active''],
      el [(''data-panel'', ''a'')] [''tab-panel'']]"

definition twin_panels_started :: "unit page" where
  "twin_panels_started = initTabs twin_panels_page"

text \<open>A document whose first tab is also the panel of the second.\<close>

definition tab_panel_page :: "unit page" where
  "tab_panel_page = load Map.empty False None
     [el [(''data-tab'', ''a''), (''data-panel'', ''b'')] [''tab'', ''tab-panel'', ''is-active''],
      el [(''data-tab'', ''b'')] [''tab''],
      el [(''data-panel'', ''a'')] [''tab-panel'']]"

definition tab_panel_started :: "unit page" where
  "tab_panel_started = initTabs tab_panel_page"

definition reveal_page :: "unit page" where
  "reveal_page = load Map.empty False None
     [el [] [''reveal''], el [(''id'', ''back-to-top'')] [''reveal'']]"

definition reveal_started :: "unit page" where
  "reveal_started = initBackToTop (initReveal reveal_page)"

definition countdown_page :: "unit page" where
  "countdown_page = load Map.empty False None
     [el [(''id'', ''days'')] [], el [(''id'', ''hours'')] [],
      el [(''id'', ''minutes'')] [], el [(''id'', ''seconds'')] []]"

text \<open>The countdown started at the clock reading 1700000000000 (14 November 2023).\<close>

definition countdown_started :: "unit page" where
  "countdown_started =
     snd (initCountdown sample_platform 1700000000000 1700000000000 1700000000000 1700000000000
            countdown_page)"

section \<open>Queries and badge writes\<close>

lemma querySelector_SomeD:
  assumes "querySelector sel els = Some b"
  shows "b < length els \<and> sel (els ! b)"
proof -
  from assms obtain rest where "querySelectorAll sel els = b # rest"
    by (auto simp: querySelector_def split: list.splits)
  then have "b \<in> set (filter (\<lambda>i. sel (els ! i)) [0..<length els])"
    by (simp add: querySelectorAll_def)
  then show ?thesis by simp
qed

lemma loadStorage_unusable:
  "unusable parse (localStorage s key) \<Longrightarrow> loadStorage parse s key fallback = fallback"
  by (auto simp: unusable_def loadStorage_def split: option.splits)

lemma int_to_string_0: "int_to_string 0 = ''0''"
  by (simp add: int_to_string_def nat_to_string.simps digit_char_def)

lemma safe_small [simp]: "safe 0" "safe 1"
  by (simp_all add: safe_def)

lemma safe_between: "0 \<le> a \<Longrightarrow> a \<le> b \<Longrightarrow> safe b \<Longrightarrow> safe a"
  by (simp add: safe_def)

lemma int_to_string_1: "int_to_string 1 = ''1''"
  by (simp add: int_to_string_def nat_to_string.simps digit_char_def)

lemma syncBadges_counts:
  assumes "cart_reduce P (loadStorage parse s ''veloura-cart'' (JArr [])) = Inr (JNum c)"
    and "get_length (loadStorage parse s ''veloura-wishlist'' (JArr [])) = Inr (JNum w)"
  shows "syncBadges P parse s =
    (Normal, s\<lparr>elements :=
       write_badge (querySelector (has_id ''wishlist-count'') (elements s)) (num_to_string P w)
         (write_badge (querySelector (has_id ''cart-count'') (elements s)) (num_to_string P c)
            (elements s))\<rparr>)"
  using assms
  by (simp add: syncBadges_def assign_text_def write_badge_def Let_def split: option.splits)

lemma write_badge_text_same:
  "querySelector sel els = Some b \<Longrightarrow> textContent (write_badge (Some b) t els ! b) = t"
  by (auto simp: write_badge_def update_at_def set_text_def dest: querySelector_SomeD)

lemma write_badge_other:
  "q \<noteq> Some b \<Longrightarrow> write_badge q t els ! b = els ! b"
  by (cases q) (simp_all add: write_badge_def update_at_def)

lemma badges_distinct:
  assumes "querySelector (has_id ''cart-count'') els = Some b"
  shows "querySelector (has_id ''wishlist-count'') els \<noteq> Some b"
proof
  assume "querySelector (has_id ''wishlist-count'') els = Some b"
  with assms have "has_id ''cart-count'' (els ! b)" "has_id ''wishlist-count'' (els ! b)"
    by (auto dest: querySelector_SomeD)
  then show False by (simp add: has_id_def)
qed

lemma rendered_cart:
  assumes "querySelector (has_id ''cart-count'') els = Some b"
  shows "textContent (write_badge (querySelector (has_id ''wishlist-count'') els) tw
      (write_badge (querySelector (has_id ''cart-count'') els) tc els) ! b) = tc"
  using assms badges_distinct[OF assms]
  by (simp add: write_badge_other write_badge_text_same)

lemma rendered_wishlist:
  assumes "querySelector (has_id ''wishlist-count'') els = Some b"
  shows "textContent (write_badge (querySelector (has_id ''wishlist-count'') els) tw
      (write_badge (querySelector (has_id ''cart-count'') els) tc els) ! b) = tw"
proof -
  have "b < length els" using assms by (auto dest: querySelector_SomeD)
  then show ?thesis using assms
    by (simp add: write_badge_def update_at_def set_text_def split: option.splits)
qed

text \<open>What the sync renders once the two counts are numbers.\<close>

lemma syncBadges_renders:
  assumes "cart_reduce P (loadStorage parse s ''veloura-cart'' (JArr [])) = Inr (JNum c)"
    and "get_length (loadStorage parse s ''veloura-wishlist'' (JArr [])) = Inr (JNum w)"
  shows "fst (syncBadges P parse s) = Normal"
    and "querySelector (has_id ''cart-count'') (elements s) = Some b \<Longrightarrow>
         textContent (elements (snd (syncBadges P parse s)) ! b) = num_to_string P c"
    and "querySelector (has_id ''wishlist-count'') (elements s) = Some b \<Longrightarrow>
         textContent (elements (snd (syncBadges P parse s)) ! b) = num_to_string P w"
proof -
  note r = syncBadges_counts[OF assms]
  show "fst (syncBadges P parse s) = Normal" by (simp add: r)
  show "textContent (elements (snd (syncBadges P parse s)) ! b) = num_to_string P c"
    if "querySelector (has_id ''cart-count'') (elements s) = Some b"
    using rendered_cart[OF that] by (simp add: r)
  show "textContent (elements (snd (syncBadges P parse s)) ! b) = num_to_string P w"
    if "querySelector (has_id ''wishlist-count'') (elements s) = Some b"
    using rendered_wishlist[OF that] by (simp add: r)
qed

lemma badge_page_elements:
  "querySelector (has_id ''cart-count'') (elements (badge_page c w)) = Some 0"
  "querySelector (has_id ''wishlist-count'') (elements (badge_page c w)) = Some 1"
  by (simp_all add: badge_page_def load_def el_def querySelector_def querySelectorAll_def
      has_id_def getAttribute_def)

lemma badge_page_load:
  "loadStorage sample_parse (badge_page (Some c) w) ''veloura-cart'' (JArr []) =
     (if c = [] then JArr [] else case sample_parse c of None \<Rightarrow> JArr [] | Some j \<Rightarrow> j)"
  "loadStorage sample_parse (badge_page k None) ''veloura-wishlist'' (JArr []) = JArr []"
  "loadStorage sample_parse (badge_page k (Some ''[7,8,9]'')) ''veloura-wishlist'' (JArr []) =
     JArr [JNum (Finite 7), JNum (Finite 8), JNum (Finite 9)]"
  by (simp_all add: loadStorage_def badge_page_def load_def sample_parse_def)

section \<open>Summing a cart\<close>

lemma js_plus_numbers: "js_plus P (JNum a) (JNum b) = Inr (JNum (num_add P a b))"
  by (simp add: js_plus_def)

lemma add_item_falsy:
  assumes "get_qty item = Inr q" and "falsy q"
  shows "add_item P acc item = js_plus P acc (JNum (Finite 1))"
  using assms by (simp add: add_item_def)

lemma add_item_one: "add_item P acc one_item = js_plus P acc (JNum (Finite 1))"
  by (simp add: add_item_def one_item_def)

lemma add_item_valid:
  assumes "valid_item item"
  shows "add_item P (JNum a) item = Inr (JNum (num_add P a (quantity_counted item)))"
proof (cases item)
  case (JObj kvs)
  show ?thesis
  proof (cases "map_of kvs ''qty''")
    case None
    then show ?thesis by (simp add: JObj add_item_def js_plus_numbers)
  next
    case (Some v)
    with assms JObj obtain n where v: "v = JNum n"
      by (auto split: jsval.splits)
    show ?thesis by (simp add: JObj Some v add_item_def js_plus_numbers)
  qed
qed (use assms in simp_all)

lemma reduce_from_valid:
  "\<forall>item \<in> set items. valid_item item \<Longrightarrow>
   reduce_from P (JNum a) items = Inr (JNum (foldl (num_add P) a (map quantity_counted items)))"
  by (induction items arbitrary: a) (simp_all add: add_item_valid)

lemma reduce_from_append:
  "reduce_from P acc (xs @ ys) =
     (case reduce_from P acc xs of Inl e \<Rightarrow> Inl e | Inr acc' \<Rightarrow> reduce_from P acc' ys)"
  by (induction xs arbitrary: acc) (simp_all split: sum.splits)

lemma reduce_from_falsy_as_one:
  assumes "get_qty item = Inr q" and "falsy q"
  shows "reduce_from P acc (xs @ item # ys) = reduce_from P acc (xs @ one_item # ys)"
  by (simp add: reduce_from_append add_item_falsy[OF assms] add_item_one split: sum.splits)

lemma foldl_add_exact:
  assumes "\<forall>q \<in> set qs. 0 \<le> q" and "0 \<le> a" and "safe (a + sum_list qs)"
  shows "foldl (num_add P) (Finite a) (map Finite qs) = Finite (a + sum_list qs)"
  using assms
proof (induction qs arbitrary: a)
  case Nil
  then show ?case by simp
next
  case (Cons q qs)
  have rest: "0 \<le> sum_list qs" using Cons.prems(1) by (simp add: sum_list_nonneg)
  have q: "0 \<le> q" using Cons.prems(1) by simp
  have "safe (a + q)" "safe a" "safe q"
    using Cons.prems(2,3) rest q by (simp_all add: safe_def)
  moreover have "foldl (num_add P) (Finite (a + q)) (map Finite qs) = Finite (a + q + sum_list qs)"
    using Cons.prems q by (intro Cons.IH) (simp_all add: add.assoc)
  ultimately show ?case by (simp add: add.assoc)
qed

section \<open>Badge sync: the claims\<close>

text \<open>
  C1. When the value stored under \<^verbatim>\<open>veloura-cart\<close> and the value stored under
  \<^verbatim>\<open>veloura-wishlist\<close> are each absent or malformed (empty, or rejected by \<^verbatim>\<open>JSON.parse\<close>),
  the badge sync completes without an exception and each badge that exists shows 0.
\<close>

theorem syncBadges_absent_or_malformed:
  assumes "unusable parse (localStorage s ''veloura-cart'')"
    and "unusable parse (localStorage s ''veloura-wishlist'')"
  shows "fst (syncBadges P parse s) = Normal \<and>
    (\<forall>b. querySelector (has_id ''cart-count'') (elements s) = Some b \<longrightarrow>
       textContent (elements (snd (syncBadges P parse s)) ! b) = ''0'') \<and>
    (\<forall>b. querySelector (has_id ''wishlist-count'') (elements s) = Some b \<longrightarrow>
       textContent (elements (snd (syncBadges P parse s)) ! b) = ''0'')"
proof -
  have c: "cart_reduce P (loadStorage parse s ''veloura-cart'' (JArr [])) = Inr (JNum (Finite 0))"
    using assms(1) by (simp add: loadStorage_unusable)
  have w: "get_length (loadStorage parse s ''veloura-wishlist'' (JArr [])) = Inr (JNum (Finite 0))"
    using assms(2) by (simp add: loadStorage_unusable)
  show ?thesis
    using syncBadges_renders[OF c w] by (simp add: int_to_string_0)
qed

text \<open>A malformed cart text and no wishlist at all.\<close>

theorem syncBadges_absent_or_malformed_witness:
  "fst (syncBadges sample_platform sample_parse (badge_page (Some ''{oops'') None)) = Normal \<and>
   textContent (elements (snd (syncBadges sample_platform sample_parse
      (badge_page (Some ''{oops'') None))) ! 0) = ''0'' \<and>
   textContent (elements (snd (syncBadges sample_platform sample_parse
      (badge_page (Some ''{oops'') None))) ! 1) = ''0''"
proof -
  have c: "unusable sample_parse (localStorage (badge_page (Some ''{oops'') None) ''veloura-cart'')"
    by (simp add: unusable_def sample_parse_def badge_page_def load_def)
  have w: "unusable sample_parse (localStorage (badge_page (Some ''{oops'') None) ''veloura-wishlist'')"
    by (simp add: unusable_def badge_page_def load_def)
  show ?thesis
    using syncBadges_absent_or_malformed[OF c w, of sample_platform] badge_page_elements
    by simp
qed

text \<open>
  C6, as amended. For a stored cart that is an array of valid items and a stored wishlist
  that is an array (of fewer than \<open>2^32\<close> elements, as every array is), the badge sync
  completes, the cart badge shows the sum over the items of the quantity, where a
  missing quantity and a quantity of 0 both count as 1, and the wishlist badge shows the
  length of the wishlist array. The sum is the one the platform computes, from left to
  right, whatever numbers the quantities are; for quantities that are non-negative
  integers with a safe sum it is the integer sum, printed in decimal.
\<close>

theorem syncBadges_valid_arrays:
  assumes "loadStorage parse s ''veloura-cart'' (JArr []) = JArr items"
    and "\<forall>item \<in> set items. valid_item item"
    and "loadStorage parse s ''veloura-wishlist'' (JArr []) = JArr wishes"
    and "length wishes < 2 ^ 32"
  shows "fst (syncBadges P parse s) = Normal \<and>
    (\<forall>b. querySelector (has_id ''cart-count'') (elements s) = Some b \<longrightarrow>
       textContent (elements (snd (syncBadges P parse s)) ! b) =
         num_to_string P (sum_numbers P (map quantity_counted items)) \<and>
       (\<forall>qs. map quantity_counted items = map Finite qs \<and> (\<forall>q \<in> set qs. 0 \<le> q) \<and>
             safe (sum_list qs) \<longrightarrow>
          textContent (elements (snd (syncBadges P parse s)) ! b) = int_to_string (sum_list qs))) \<and>
    (\<forall>b. querySelector (has_id ''wishlist-count'') (elements s) = Some b \<longrightarrow>
       textContent (elements (snd (syncBadges P parse s)) ! b) = int_to_string (int (length wishes)))"
proof -
  have c: "cart_reduce P (loadStorage parse s ''veloura-cart'' (JArr [])) =
      Inr (JNum (sum_numbers P (map quantity_counted items)))"
    using assms(2) by (simp add: assms(1) reduce_from_valid sum_numbers_def)
  have w: "get_length (loadStorage parse s ''veloura-wishlist'' (JArr [])) =
      Inr (JNum (Finite (int (length wishes))))"
    by (simp add: assms(3))
  have "int (length wishes) < 2 ^ 32"
    using assms(4) by (metis of_nat_less_iff of_nat_numeral of_nat_power)
  then have l: "safe (int (length wishes))"
    by (simp add: safe_def)
  have exact: "num_to_string P (sum_numbers P (map quantity_counted items)) = int_to_string (sum_list qs)"
    if "map quantity_counted items = map Finite qs" "\<forall>q \<in> set qs. 0 \<le> q" "safe (sum_list qs)" for qs
    using foldl_add_exact[of qs 0 P] that by (simp add: sum_numbers_def)
  show ?thesis
    using syncBadges_renders[OF c w] exact l by simp
qed

text \<open>A cart of two items, one without a quantity, and a wishlist of three.\<close>

theorem syncBadges_valid_arrays_witness:
  "fst (syncBadges sample_platform sample_parse
      (badge_page (Some ''[{\"qty\":2},{}]'') (Some ''[7,8,9]''))) = Normal \<and>
   textContent (elements (snd (syncBadges sample_platform sample_parse
      (badge_page (Some ''[{\"qty\":2},{}]'') (Some ''[7,8,9]'')))) ! 0) = ''3'' \<and>
   textContent (elements (snd (syncBadges sample_platform sample_parse
      (badge_page (Some ''[{\"qty\":2},{}]'') (Some ''[7,8,9]'')))) ! 1) = ''3''"
proof -
  let ?p = "badge_page (Some ''[{\"qty\":2},{}]'') (Some ''[7,8,9]'')"
  let ?items = "[JObj [(''qty'', JNum (Finite 2))], JObj []] :: unit jsval list"
  let ?wishes = "[JNum (Finite 7), JNum (Finite 8), JNum (Finite 9)] :: unit jsval list"
  have c: "loadStorage sample_parse ?p ''veloura-cart'' (JArr []) = JArr ?items"
    by (simp add: badge_page_load sample_parse_def)
  have v: "\<forall>item \<in> set ?items. valid_item item" by simp
  have w: "loadStorage sample_parse ?p ''veloura-wishlist'' (JArr []) = JArr ?wishes"
    by (simp add: badge_page_load)
  have n: "length ?wishes < 2 ^ 32" by simp
  have q: "map quantity_counted ?items = map Finite [2, 1] \<and> (\<forall>q \<in> set [2, 1::int]. 0 \<le> q) \<and>
      safe (sum_list [2, 1])"
    by (simp add: safe_def)
  have three: "int_to_string (sum_list [2, 1]) = ''3''" "int_to_string (int (length ?wishes)) = ''3''"
    by (simp_all add: int_to_string_def nat_to_string.simps digit_char_def)
  from syncBadges_valid_arrays[OF c v w n, of sample_platform]
  have "fst (syncBadges sample_platform sample_parse ?p) = Normal"
    and "textContent (elements (snd (syncBadges sample_platform sample_parse ?p)) ! 0) =
      int_to_string (sum_list [2, 1])"
    and "textContent (elements (snd (syncBadges sample_platform sample_parse ?p)) ! 1) =
      int_to_string (int (length ?wishes))"
    using badge_page_elements q by blast+
  then show ?thesis using three by simp
qed

text \<open>
  C6 as stated fails on an item whose quantity is 0: the sum of the quantities is 0, the
  badge shows 1.
\<close>

theorem cart_badge_zero_quantity_counterexample:
  "valid_item (JObj [(''qty'', JNum (Finite 0))] :: unit jsval) \<and>
   loadStorage sample_parse (badge_page (Some ''[{\"qty\":0}]'') None) ''veloura-cart'' (JArr [])
     = JArr [JObj [(''qty'', JNum (Finite 0))]] \<and>
   num_to_string sample_platform
     (sum_numbers sample_platform (map quantity_as_stated [JObj [(''qty'', JNum (Finite 0))]])) = ''0'' \<and>
   textContent (elements (snd (syncBadges sample_platform sample_parse
      (badge_page (Some ''[{\"qty\":0}]'') None))) ! 0) = ''1''"
proof -
  let ?p = "badge_page (Some ''[{\"qty\":0}]'') None"
  have l: "loadStorage sample_parse ?p ''veloura-cart'' (JArr [])
     = JArr [JObj [(''qty'', JNum (Finite 0))]]"
    by (simp add: badge_page_load sample_parse_def)
  have c: "cart_reduce sample_platform (loadStorage sample_parse ?p ''veloura-cart'' (JArr [])) =
      Inr (JNum (Finite 1))"
    by (simp add: l add_item_def js_plus_numbers safe_def)
  have w: "get_length (loadStorage sample_parse ?p ''veloura-wishlist'' (JArr [])) =
      Inr (JNum (Finite 0))"
    by (simp add: badge_page_load)
  have "textContent (elements (snd (syncBadges sample_platform sample_parse ?p)) ! 0) = ''1''"
    using syncBadges_renders(2)[OF c w, of 0] badge_page_elements(1)
    by (simp add: int_to_string_1)
  then show ?thesis
    by (simp add: l sum_numbers_def safe_def int_to_string_0)
qed

text \<open>
  C10. In a stored cart whose other items are valid, an item whose \<^verbatim>\<open>qty\<close> is falsy (0,
  \<^verbatim>\<open>null\<close>, \<^verbatim>\<open>false\<close>, the empty string, \<^verbatim>\<open>NaN\<close>, or missing) contributes exactly 1 to the
  cart badge: the badge sync completes and the cart badge shows the sum of the items
  before it, plus 1, plus the items after it, as the platform computes it from left to
  right; for other quantities that are non-negative integers with a safe total, that is
  the integer total printed in decimal. In every cart the reduction treats such an item
  as an item of quantity 1.
\<close>

theorem falsy_qty_counts_one:
  assumes "loadStorage parse s ''veloura-cart'' (JArr []) = JArr (before @ item # after)"
    and "\<forall>i \<in> set before. valid_item i" and "\<forall>i \<in> set after. valid_item i"
    and "get_qty item = Inr q" and "falsy q"
    and "loadStorage parse s ''veloura-wishlist'' (JArr []) = JArr wishes"
  shows "fst (syncBadges P parse s) = Normal \<and>
    (\<forall>b. querySelector (has_id ''cart-count'') (elements s) = Some b \<longrightarrow>
       textContent (elements (snd (syncBadges P parse s)) ! b) =
         num_to_string P
           (foldl (num_add P)
              (num_add P (sum_numbers P (map quantity_counted before)) (Finite 1))
              (map quantity_counted after)) \<and>
       (\<forall>ps qs. map quantity_counted before = map Finite ps \<and> (\<forall>q \<in> set ps. 0 \<le> q) \<and>
             map quantity_counted after = map Finite qs \<and> (\<forall>q \<in> set qs. 0 \<le> q) \<and>
             safe (sum_list ps + 1 + sum_list qs) \<longrightarrow>
          textContent (elements (snd (syncBadges P parse s)) ! b) =
            int_to_string (sum_list ps + 1 + sum_list qs))) \<and>
    cart_reduce P (JArr (before @ item # after)) = cart_reduce P (JArr (before @ one_item # after))"
proof -
  let ?n = "sum_numbers P (map quantity_counted before)"
  have b: "reduce_from P (JNum (Finite 0)) before = Inr (JNum ?n)"
    using assms(2) by (simp add: reduce_from_valid sum_numbers_def)
  have i: "add_item P (JNum ?n) item = Inr (JNum (num_add P ?n (Finite 1)))"
    by (simp add: add_item_falsy[OF assms(4,5)] js_plus_numbers)
  have a: "reduce_from P (JNum (num_add P ?n (Finite 1))) after =
      Inr (JNum (foldl (num_add P) (num_add P ?n (Finite 1)) (map quantity_counted after)))"
    using assms(3) by (simp add: reduce_from_valid)
  have c: "cart_reduce P (loadStorage parse s ''veloura-cart'' (JArr [])) =
      Inr (JNum (foldl (num_add P) (num_add P ?n (Finite 1)) (map quantity_counted after)))"
    by (simp add: assms(1) reduce_from_append b i a)
  have w: "get_length (loadStorage parse s ''veloura-wishlist'' (JArr [])) =
      Inr (JNum (Finite (int (length wishes))))"
    by (simp add: assms(6))
  have same: "cart_reduce P (JArr (before @ item # after)) =
      cart_reduce P (JArr (before @ one_item # after))"
    using reduce_from_falsy_as_one[OF assms(4,5)] by simp
  have exact: "num_to_string P
      (foldl (num_add P) (num_add P ?n (Finite 1)) (map quantity_counted after)) =
      int_to_string (sum_list ps + 1 + sum_list qs)"
    if ps: "map quantity_counted before = map Finite ps" "\<forall>q \<in> set ps. 0 \<le> q"
      and qs: "map quantity_counted after = map Finite qs" "\<forall>q \<in> set qs. 0 \<le> q"
      and total: "safe (sum_list ps + 1 + sum_list qs)" for ps qs
  proof -
    have p0: "0 \<le> sum_list ps" and q0: "0 \<le> sum_list qs"
      using ps(2) qs(2) by (simp_all add: sum_list_nonneg)
    have sp: "safe (sum_list ps)" and sp1: "safe (sum_list ps + 1)"
      using total p0 q0 by (simp_all add: safe_def)
    have "?n = Finite (sum_list ps)"
      using foldl_add_exact[of ps 0 P] ps sp by (simp add: sum_numbers_def)
    then have "num_add P ?n (Finite 1) = Finite (sum_list ps + 1)"
      using sp sp1 by simp
    moreover have "foldl (num_add P) (Finite (sum_list ps + 1)) (map Finite qs) =
        Finite (sum_list ps + 1 + sum_list qs)"
      using qs(2) p0 total by (intro foldl_add_exact) simp_all
    ultimately show ?thesis
      using total by (simp add: qs(1))
  qed
  show ?thesis
    using syncBadges_renders(1,2)[OF c w] same exact by simp
qed

lemma digits_small:
  "int_to_string 5 = ''5''" "int_to_string 6 = ''6''"
  by (simp_all add: int_to_string_def nat_to_string.simps digit_char_def)

text \<open>Carts with a quantity of 0, of \<^verbatim>\<open>null\<close>, of \<^verbatim>\<open>false\<close> and of the empty string.\<close>

theorem falsy_qty_counts_one_witness:
  "textContent (elements (snd (syncBadges sample_platform sample_parse
      (badge_page (Some ''[{\"qty\":0}]'') None))) ! 0) = ''1'' \<and>
   textContent (elements (snd (syncBadges sample_platform sample_parse
      (badge_page (Some ''[{\"qty\":2},{\"qty\":null},{\"qty\":3}]'') None))) ! 0) = ''6'' \<and>
   textContent (elements (snd (syncBadges sample_platform sample_parse
      (badge_page (Some ''[{\"qty\":false},{\"qty\":4}]'') None))) ! 0) = ''5'' \<and>
   textContent (elements (snd (syncBadges sample_platform sample_parse
      (badge_page (Some ''[{\"qty\":5},{\"qty\":\"\"}]'') None))) ! 0) = ''6''"
proof -
  let ?zero = "JObj [(''qty'', JNum (Finite 0))] :: unit jsval"
  let ?null = "JObj [(''qty'', JNull)] :: unit jsval"
  let ?false = "JObj [(''qty'', JBool False)] :: unit jsval"
  let ?empty = "JObj [(''qty'', JStr [])] :: unit jsval"
  let ?n = "\<lambda>k. JObj [(''qty'', JNum (Finite k))] :: unit jsval"
  have q: "get_qty ?zero = Inr (JNum (Finite 0))" "get_qty ?null = Inr JNull"
    "get_qty ?false = Inr (JBool False)" "get_qty ?empty = Inr (JStr [])"
    by simp_all
  have f: "falsy (JNum (Finite 0) :: unit jsval)" "falsy (JNull :: unit jsval)"
    "falsy (JBool False :: unit jsval)" "falsy (JStr [] :: unit jsval)"
    by simp_all
  have w: "loadStorage sample_parse (badge_page k None) ''veloura-wishlist'' (JArr []) = JArr []" for k
    by (simp add: badge_page_load)
  have c1: "loadStorage sample_parse (badge_page (Some ''[{\"qty\":0}]'') None) ''veloura-cart''
      (JArr []) = JArr ([] @ ?zero # [])"
    by (simp add: badge_page_load sample_parse_def)
  have c2: "loadStorage sample_parse (badge_page (Some ''[{\"qty\":2},{\"qty\":null},{\"qty\":3}]'') None)
      ''veloura-cart'' (JArr []) = JArr ([?n 2] @ ?null # [?n 3])"
    by (simp add: badge_page_load sample_parse_def)
  have c3: "loadStorage sample_parse (badge_page (Some ''[{\"qty\":false},{\"qty\":4}]'') None)
      ''veloura-cart'' (JArr []) = JArr ([] @ ?false # [?n 4])"
    by (simp add: badge_page_load sample_parse_def)
  have c4: "loadStorage sample_parse (badge_page (Some ''[{\"qty\":5},{\"qty\":\"\"}]'') None)
      ''veloura-cart'' (JArr []) = JArr ([?n 5] @ ?empty # [])"
    by (simp add: badge_page_load sample_parse_def)
  have v: "\<forall>i \<in> set ([] :: unit jsval list). valid_item i" "\<forall>i \<in> set [?n 2]. valid_item i"
    "\<forall>i \<in> set [?n 3]. valid_item i" "\<forall>i \<in> set [?n 4]. valid_item i"
    "\<forall>i \<in> set [?n 5]. valid_item i"
    by simp_all
  note e = badge_page_elements(1)
  have "textContent (elements (snd (syncBadges sample_platform sample_parse
      (badge_page (Some ''[{\"qty\":0}]'') None))) ! 0) = ''1''"
    using falsy_qty_counts_one[OF c1 v(1) v(1) q(1) f(1) w, of sample_platform] e
    by (simp add: sum_numbers_def safe_def int_to_string_1)
  moreover have "textContent (elements (snd (syncBadges sample_platform sample_parse
      (badge_page (Some ''[{\"qty\":2},{\"qty\":null},{\"qty\":3}]'') None))) ! 0) = ''6''"
    using falsy_qty_counts_one[OF c2 v(2) v(3) q(2) f(2) w, of sample_platform] e
    by (simp add: sum_numbers_def safe_def digits_small)
  moreover have "textContent (elements (snd (syncBadges sample_platform sample_parse
      (badge_page (Some ''[{\"qty\":false},{\"qty\":4}]'') None))) ! 0) = ''5''"
    using falsy_qty_counts_one[OF c3 v(1) v(4) q(3) f(3) w, of sample_platform] e
    by (simp add: sum_numbers_def safe_def digits_small)
  moreover have "textContent (elements (snd (syncBadges sample_platform sample_parse
      (badge_page (Some ''[{\"qty\":5},{\"qty\":\"\"}]'') None))) ! 0) = ''6''"
    using falsy_qty_counts_one[OF c4 v(5) v(1) q(4) f(4) w, of sample_platform] e
    by (simp add: sum_numbers_def safe_def digits_small)
  ultimately show ?thesis by blast
qed

section \<open>What the handlers leave alone\<close>

lemma update_at_length [simp]: "length (update_at i f els) = length els"
  by (simp add: update_at_def)

lemma update_at_nth:
  "update_at i f els ! j = (if j = i \<and> i < length els then f (els ! j) else els ! j)"
  by (simp add: update_at_def)

lemma update_at_id: "update_at i (\<lambda>e. e) els = els"
  by (simp add: update_at_def)

lemma write_field_frame:
  "write_field i t s = Inr s' \<Longrightarrow> \<exists>els. s' = s\<lparr>elements := els\<rparr>"
  by (auto simp: write_field_def split: option.splits)

lemma write_fields_frame: "\<exists>els. snd (write_fields fs s) = s\<lparr>elements := els\<rparr>"
proof (induction fs arbitrary: s)
  case Nil
  have "s = s\<lparr>elements := elements s\<rparr>" by simp
  then show ?case by (metis write_fields.simps(1) snd_conv)
next
  case (Cons f fs)
  obtain i t where f: "f = (i, t)" by (cases f)
  show ?case
  proof (cases "write_field i t s")
    case (Inl e)
    have "s = s\<lparr>elements := elements s\<rparr>" by simp
    then show ?thesis using Inl f by (metis write_fields.simps(2) sum.simps(5) snd_conv)
  next
    case (Inr s1)
    then obtain els1 where s1: "s1 = s\<lparr>elements := els1\<rparr>" using write_field_frame by blast
    obtain els where "snd (write_fields fs s1) = s1\<lparr>elements := els\<rparr>" using Cons.IH by blast
    then have "snd (write_fields (f # fs) s) = s\<lparr>elements := els\<rparr>"
      using Inr f s1 by simp
    then show ?thesis by blast
  qed
qed

lemma tick_frame:
  "\<exists>tgt els. snd (tick P a b c s) = s\<lparr>countdownTarget := tgt, elements := els\<rparr>"
proof -
  define s1 where "s1 = (if num_nonpositive P (num_sub P (target_num s) (Finite a))
      then s\<lparr>countdownTarget := Some (time_clip P (num_add P (Finite b) (Finite three_days)))\<rparr>
      else s)"
  have "\<exists>fs. tick P a b c s = write_fields fs s1"
    unfolding tick_def s1_def by (simp only: Let_def) blast
  then obtain fs where t: "tick P a b c s = write_fields fs s1" by blast
  obtain els where e: "snd (write_fields fs s1) = s1\<lparr>elements := els\<rparr>"
    using write_fields_frame by blast
  have "\<exists>tgt. s1 = s\<lparr>countdownTarget := tgt\<rparr>"
  proof (cases "num_nonpositive P (num_sub P (target_num s) (Finite a))")
    case True
    then show ?thesis by (auto simp: s1_def)
  next
    case False
    have "s = s\<lparr>countdownTarget := countdownTarget s\<rparr>" by simp
    then show ?thesis using False unfolding s1_def by metis
  qed
  then obtain tgt where "s1 = s\<lparr>countdownTarget := tgt\<rparr>" by blast
  then have "snd (tick P a b c s) = s\<lparr>countdownTarget := tgt, elements := els\<rparr>"
    using t e by simp
  then show ?thesis by blast
qed

lemma tick_fields:
  "localStorage (snd (tick P a b c s)) = localStorage s"
  "slides (snd (tick P a b c s)) = slides s"
  "testimonialTimer (snd (tick P a b c s)) = testimonialTimer s"
  "testimonialIndex (snd (tick P a b c s)) = testimonialIndex s"
  "back_to_top (snd (tick P a b c s)) = back_to_top s"
  "dots (snd (tick P a b c s)) = dots s"
proof -
  obtain tgt els where e: "snd (tick P a b c s) = s\<lparr>countdownTarget := tgt, elements := els\<rparr>"
    using tick_frame by blast
  show "localStorage (snd (tick P a b c s)) = localStorage s"
    "slides (snd (tick P a b c s)) = slides s"
    "testimonialTimer (snd (tick P a b c s)) = testimonialTimer s"
    "testimonialIndex (snd (tick P a b c s)) = testimonialIndex s"
    "back_to_top (snd (tick P a b c s)) = back_to_top s"
    "dots (snd (tick P a b c s)) = dots s"
    by (simp_all add: e)
qed

lemma goToSlide_fields:
  "localStorage (goToSlide P k s) = localStorage s"
  "slides (goToSlide P k s) = slides s"
  "testimonialTimer (goToSlide P k s) = testimonialTimer s"
  "back_to_top (goToSlide P k s) = back_to_top s"
  "dots (goToSlide P k s) = dots s"
  "prev_button (goToSlide P k s) = prev_button s"
  "next_button (goToSlide P k s) = next_button s"
  by (simp_all add: goToSlide_def update_def)

lemma goToSlide_index:
  "testimonialIndex (goToSlide P k s) =
     num_rem P (num_add P k (Finite (int (slides s)))) (Finite (int (slides s)))"
  by (simp add: goToSlide_def update_def)

lemma step_storage:
  "k \<noteq> ''veloura-theme'' \<Longrightarrow> localStorage (snd (step P e s)) k = localStorage s k"
  by (cases e)
     (simp_all add: theme_click_def scroll_def reveal_callback_def tab_click_def tick_fields
        goToSlide_fields prev_slide_def next_slide_def arrival_timeout_def Let_def
        split: option.splits)

lemma step_fields:
  "slides (snd (step P e s)) = slides s"
  "testimonialTimer (snd (step P e s)) = testimonialTimer s"
  "back_to_top (snd (step P e s)) = back_to_top s"
  "dots (snd (step P e s)) = dots s"
  by (cases e;
      simp add: theme_click_def scroll_def reveal_callback_def tab_click_def tick_fields
        goToSlide_fields prev_slide_def next_slide_def arrival_timeout_def Let_def
        split: option.splits)+

lemma step_index:
  "testimonialIndex (snd (step P e s)) =
     (case e of
        DotClick index \<Rightarrow>
          if index < length (dots s) then testimonialIndex (goToSlide P (Finite (int index)) s)
          else testimonialIndex s
      | PrevClick \<Rightarrow>
          if prev_button s = None then testimonialIndex s else testimonialIndex (prev_slide P s)
      | NextClick \<Rightarrow>
          if next_button s = None then testimonialIndex s else testimonialIndex (next_slide P s)
      | Autoplay \<Rightarrow>
          if testimonialTimer s then testimonialIndex (next_slide P s) else testimonialIndex s
      | _ \<Rightarrow> testimonialIndex s)"
  by (cases e)
     (simp_all add: theme_click_def scroll_def reveal_callback_def tab_click_def tick_fields
        arrival_timeout_def Let_def split: option.splits)

lemma run_Nil [simp]: "run P [] s = s"
  by (simp add: run_def)

lemma run_Cons [simp]: "run P (e # evs) s = run P evs (snd (step P e s))"
  by (simp add: run_def)

lemma run_storage:
  "k \<noteq> ''veloura-theme'' \<Longrightarrow> localStorage (run P evs s) k = localStorage s k"
  by (induction evs arbitrary: s) (simp_all add: step_storage)

lemma run_fields:
  "slides (run P evs s) = slides s"
  "testimonialTimer (run P evs s) = testimonialTimer s"
  "back_to_top (run P evs s) = back_to_top s"
  "dots (run P evs s) = dots s"
  by (induction evs arbitrary: s) (simp_all add: step_fields)

section \<open>Storage during init\<close>

lemma syncBadges_storage: "localStorage (snd (syncBadges P parse s)) = localStorage s"
  by (simp add: syncBadges_def assign_text_def Let_def split: option.splits sum.splits)

lemma initCountdown_storage: "localStorage (snd (initCountdown P n a b c s)) = localStorage s"
proof (cases "querySelector (has_id ''days'') (elements s)")
  case None
  then show ?thesis by (simp add: initCountdown_def)
next
  case (Some daysEl)
  let ?s0 = "s\<lparr>countdownTarget := Some (time_clip P (num_add P (Finite n) (Finite three_days)))\<rparr>"
  obtain c1 s1 where t: "tick P a b c ?s0 = (c1, s1)" by (cases "tick P a b c ?s0")
  have "localStorage s1 = localStorage s"
    using tick_fields(1)[of P a b c ?s0] t by simp
  then show ?thesis
    by (cases c1) (simp_all add: initCountdown_def Some t del: num_add.simps time_clip.simps)
qed

lemma init_storage: "localStorage (snd (init P parse n a b c s)) = localStorage s"
proof -
  have pre: "localStorage (initTabs (initReveal (initParallax (initHeadlineSplit (initTheme p))))) =
      localStorage p" for p :: "'a page"
    by (simp add: initTabs_def initReveal_def initParallax_def initHeadlineSplit_def initTheme_def
        Let_def split: option.splits)
  have post: "localStorage (initArrivalSkeleton (initBackToTop (initTestimonials p))) =
      localStorage p" for p :: "'a page"
    by (simp add: initArrivalSkeleton_def initBackToTop_def initTestimonials_def update_def Let_def
        split: option.splits)
  obtain c1 s1 where s1: "syncBadges P parse s = (c1, s1)" by (cases "syncBadges P parse s")
  have l1: "localStorage s1 = localStorage s" using syncBadges_storage[of P parse s] s1 by simp
  let ?s = "initTabs (initReveal (initParallax (initHeadlineSplit (initTheme s1))))"
  obtain c2 s2 where s2: "initCountdown P n a b c ?s = (c2, s2)"
    by (cases "initCountdown P n a b c ?s")
  have l2: "localStorage s2 = localStorage s1"
    using initCountdown_storage[of P n a b c ?s] s2 pre by simp
  show ?thesis
    by (cases c1; cases c2) (simp_all add: init_def s1 s2 l1 l2 post)
qed

section \<open>Storage and theme: the claims\<close>

text \<open>
  C9. Neither \<^verbatim>\<open>init\<close> nor any run of events, from any page or after \<^verbatim>\<open>init\<close>, writes
  the storage keys \<^verbatim>\<open>veloura-cart\<close> and \<^verbatim>\<open>veloura-wishlist\<close>: their stored values stay
  what they were.
\<close>

theorem cart_and_wishlist_never_written:
  "localStorage (snd (init P parse now now1 now2 now3 s)) ''veloura-cart'' =
     localStorage s ''veloura-cart'' \<and>
   localStorage (snd (init P parse now now1 now2 now3 s)) ''veloura-wishlist'' =
     localStorage s ''veloura-wishlist'' \<and>
   localStorage (run P evs s) ''veloura-cart'' = localStorage s ''veloura-cart'' \<and>
   localStorage (run P evs s) ''veloura-wishlist'' = localStorage s ''veloura-wishlist'' \<and>
   localStorage (run P evs (snd (init P parse now now1 now2 now3 s))) ''veloura-cart'' =
     localStorage s ''veloura-cart'' \<and>
   localStorage (run P evs (snd (init P parse now now1 now2 now3 s))) ''veloura-wishlist'' =
     localStorage s ''veloura-wishlist''"
  by (simp add: init_storage run_storage)

text \<open>
  C2, as amended. When the root's theme attribute is \<^verbatim>\<open>dark\<close> or \<^verbatim>\<open>light\<close>, two clicks
  on the toggle return the attribute to its value; the first click flips it and stores
  the flipped theme, and after the second the stored preference is the attribute's
  original value. So the stored preference returns to its original value exactly when
  it was that value before; a preference that was absent is not absent afterwards.
\<close>

theorem theme_click_twice:
  assumes "data_theme s = Some th" and "th = ''dark'' \<or> th = ''light''"
  shows "data_theme (run P [ThemeToggleClick, ThemeToggleClick] s) = data_theme s \<and>
    (toggle s \<noteq> None \<longrightarrow>
       data_theme (run P [ThemeToggleClick] s) =
         Some (if th = ''dark'' then ''light'' else ''dark'') \<and>
       localStorage (run P [ThemeToggleClick] s) ''veloura-theme'' =
         Some (if th = ''dark'' then ''light'' else ''dark'') \<and>
       localStorage (run P [ThemeToggleClick, ThemeToggleClick] s) ''veloura-theme'' = Some th) \<and>
    (localStorage s ''veloura-theme'' = Some th \<longrightarrow>
       localStorage (run P [ThemeToggleClick, ThemeToggleClick] s) = localStorage s)"
  using assms by (cases "toggle s") (auto simp: theme_click_def Let_def)

lemma theme_started_fields:
  "data_theme theme_started = Some ''dark''" "toggle theme_started = Some 0"
  "localStorage theme_started ''veloura-theme'' = None"
  by (simp_all add: theme_started_def initTheme_def theme_page_def load_def el_def
      querySelector_def querySelectorAll_def has_id_def getAttribute_def Let_def)

text \<open>The page of a first visit under a dark colour scheme, with a toggle button.\<close>

theorem theme_click_twice_witness:
  "data_theme (run sample_platform [ThemeToggleClick, ThemeToggleClick] theme_started) =
     Some ''dark'' \<and>
   data_theme (run sample_platform [ThemeToggleClick] theme_started) = Some ''light'' \<and>
   localStorage (run sample_platform [ThemeToggleClick, ThemeToggleClick] theme_started)
     ''veloura-theme'' = Some ''dark''"
proof -
  have b: "''dark'' = ''dark'' \<or> ''dark'' = ''light''" by simp
  show ?thesis
    using theme_click_twice[OF theme_started_fields(1) b, of sample_platform] theme_started_fields
    by simp
qed

lemma tinted_started_fields:
  "data_theme tinted_started = Some ''blue''" "toggle tinted_started = Some 0"
  "localStorage tinted_started ''veloura-theme'' = Some ''blue''"
  by (simp_all add: tinted_started_def initTheme_def tinted_page_def load_def el_def
      querySelector_def querySelectorAll_def has_id_def getAttribute_def Let_def)

text \<open>
  C2 as stated fails on that page: no preference is stored before the two clicks, and
  \<^verbatim>\<open>dark\<close> is stored after them. It fails for the attribute too when the stored
  preference names another theme: \<^verbatim>\<open>initTheme\<close> makes \<^verbatim>\<open>blue\<close> the attribute, and two
  clicks leave \<^verbatim>\<open>light\<close> as the attribute and as the stored preference.
\<close>

theorem theme_stored_preference_counterexample:
  "localStorage theme_started ''veloura-theme'' = None \<and>
   localStorage (run sample_platform [ThemeToggleClick, ThemeToggleClick] theme_started)
     ''veloura-theme'' = Some ''dark'' \<and>
   data_theme tinted_started = Some ''blue'' \<and>
   localStorage tinted_started ''veloura-theme'' = Some ''blue'' \<and>
   data_theme (run sample_platform [ThemeToggleClick, ThemeToggleClick] tinted_started)
     = Some ''light'' \<and>
   localStorage (run sample_platform [ThemeToggleClick, ThemeToggleClick] tinted_started)
     ''veloura-theme'' = Some ''light''"
  using theme_started_fields tinted_started_fields by (simp add: theme_click_def Let_def)

section \<open>The carousel index\<close>

lemma wrap_index:
  assumes "0 < n" and "safe (int n)" and "- int n \<le> k" and "safe (k + int n)"
  shows "num_rem P (num_add P (Finite k) (Finite (int n))) (Finite (int n)) = Finite (k mod int n)"
proof -
  have shift: "k mod int n = (k + int n) mod int n" by simp
  have k: "safe k" using assms by (simp add: safe_def)
  have "0 \<le> k + int n" using assms by simp
  then have "sgn (k + int n) * (\<bar>k + int n\<bar> mod \<bar>int n\<bar>) = k mod int n"
    unfolding shift by (cases "k + int n = 0") (simp_all add: sgn_if)
  moreover have "num_rem P (num_add P (Finite k) (Finite (int n))) (Finite (int n)) =
      Finite (sgn (k + int n) * (\<bar>k + int n\<bar> mod \<bar>int n\<bar>))"
    using assms(1,2,4) k by simp
  ultimately show ?thesis by (simp only:)
qed

lemma goToSlide_Finite:
  assumes "0 < slides s" and "safe (int (slides s))" and "- int (slides s) \<le> k"
    and "safe (k + int (slides s))"
  shows "testimonialIndex (goToSlide P (Finite k) s) = Finite (k mod int (slides s))"
  unfolding goToSlide_index by (rule wrap_index[OF assms])

text \<open>
  C4, as amended. On a track of \<open>n\<close> slides, \<open>n\<close> positive (and a safe integer),
  \<^verbatim>\<open>goToSlide(k)\<close> sets the index to \<open>k mod n\<close>, which lies in \<open>[0, n)\<close>, for every
  integer \<open>k\<close> from \<open>-n\<close> on whose sum with \<open>n\<close> is a safe integer. The script's own
  calls (a dot's index, the index minus one, the index plus one) are such arguments.
\<close>

theorem goToSlide_wraps:
  assumes "0 < slides s" and "safe (int (slides s))" and "- int (slides s) \<le> k"
    and "safe (k + int (slides s))"
  shows "testimonialIndex (goToSlide P (Finite k) s) = Finite (k mod int (slides s)) \<and>
         0 \<le> k mod int (slides s) \<and> k mod int (slides s) < int (slides s)"
  using assms(1) goToSlide_Finite[OF assms] by simp

lemma carousel_readyD:
  assumes "carousel_ready s"
  obtains i where "testimonialIndex s = Finite i" "0 \<le> i" "i < int (slides s)"
    "0 < slides s" "int (slides s) < 2 ^ 52" "testimonialTimer s" "length (dots s) = slides s"
  using assms by (auto simp: carousel_ready_def split: jsnum.splits)

lemma next_slide_ready:
  assumes "testimonialIndex s = Finite i" "0 \<le> i" "i < int (slides s)" "int (slides s) < 2 ^ 52"
  shows "testimonialIndex (next_slide P s) = Finite ((i + 1) mod int (slides s))"
proof -
  have "safe (i + 1)" "safe i" using assms by (simp_all add: safe_def)
  then have "next_slide P s = goToSlide P (Finite (i + 1)) s"
    by (simp add: next_slide_def assms(1))
  moreover have "0 < slides s" "safe (int (slides s))" "- int (slides s) \<le> i + 1"
    "safe (i + 1 + int (slides s))"
    using assms by (simp_all add: safe_def)
  ultimately show ?thesis by (simp only: goToSlide_Finite)
qed

lemma prev_slide_ready:
  assumes "testimonialIndex s = Finite i" "0 \<le> i" "i < int (slides s)" "int (slides s) < 2 ^ 52"
  shows "testimonialIndex (prev_slide P s) = Finite ((i - 1) mod int (slides s))"
proof -
  have "safe (i - 1)" "safe i" using assms by (simp_all add: safe_def)
  then have "prev_slide P s = goToSlide P (Finite (i - 1)) s"
    by (simp add: prev_slide_def assms(1))
  moreover have "0 < slides s" "safe (int (slides s))" "- int (slides s) \<le> i - 1"
    "safe (i - 1 + int (slides s))"
    using assms by (simp_all add: safe_def)
  ultimately show ?thesis by (simp only: goToSlide_Finite)
qed

lemma step_ready:
  assumes "carousel_ready s"
  shows "carousel_ready (snd (step P e s))"
proof -
  from assms obtain i where i: "testimonialIndex s = Finite i" "0 \<le> i" "i < int (slides s)"
    and n: "0 < slides s" and b: "int (slides s) < 2 ^ 52" and t: "testimonialTimer s"
    and d: "length (dots s) = slides s"
    by (rule carousel_readyD)
  have inr: "\<exists>j. testimonialIndex (snd (step P e s)) = Finite j \<and> 0 \<le> j \<and> j < int (slides s)"
  proof (cases e)
    case (DotClick index)
    show ?thesis
    proof (cases "index < length (dots s)")
      case True
      have "- int (slides s) \<le> int index" by simp
      moreover have "safe (int index + int (slides s))" "safe (int (slides s))"
        using True d b by (simp_all add: safe_def)
      ultimately have "testimonialIndex (goToSlide P (Finite (int index)) s) =
          Finite (int index mod int (slides s))"
        using n by (intro goToSlide_Finite)
      then show ?thesis using True n by (simp add: DotClick)
    next
      case False
      then show ?thesis using i by (simp add: DotClick)
    qed
  next
    case PrevClick
    then show ?thesis using n i by (simp add: prev_slide_ready[OF i b])
  next
    case NextClick
    then show ?thesis using n i by (simp add: next_slide_ready[OF i b])
  next
    case Autoplay
    then show ?thesis using n i by (simp add: next_slide_ready[OF i b])
  qed (use i in \<open>simp_all add: step_index del: step.simps\<close>)
  then show ?thesis
    using n b t d step_fields(1,2,4)[of P e s] by (auto simp: carousel_ready_def)
qed

lemma run_ready: "carousel_ready s \<Longrightarrow> carousel_ready (run P evs s)"
  by (induction evs arbitrary: s) (simp_all add: step_ready)

text \<open>
  C7. Once the carousel runs, whatever events happen (dot, previous and next clicks,
  earlier firings of the timer, events of the other features), the index is one of the
  slides, and a firing of the autoplay timer moves it to the next one modulo the number
  of slides.
\<close>

theorem autoplay_advances:
  assumes "carousel_ready s"
  shows "\<exists>i. testimonialIndex (run P evs s) = Finite i \<and> 0 \<le> i \<and> i < int (slides s) \<and>
    testimonialIndex (snd (step P Autoplay (run P evs s))) = Finite ((i + 1) mod int (slides s))"
proof -
  from run_ready[OF assms, of P evs] obtain i where
    i: "testimonialIndex (run P evs s) = Finite i" "0 \<le> i" "i < int (slides (run P evs s))"
    and b: "int (slides (run P evs s)) < 2 ^ 52" and t: "testimonialTimer (run P evs s)"
    by (rule carousel_readyD)
  have "testimonialIndex (snd (step P Autoplay (run P evs s))) = Finite ((i + 1) mod int (slides s))"
    using next_slide_ready[OF i b] t by (simp add: run_fields)
  then show ?thesis using i by (auto simp: run_fields)
qed

text \<open>The state \<^verbatim>\<open>initTestimonials\<close> leaves on a page with slides is such a state.\<close>

lemma initTestimonials_ready:
  assumes "querySelector (has_id ''testimonial-track'') (elements s) = Some tr"
    and "querySelector (has_id ''testimonial-dots'') (elements s) = Some ds"
    and "0 < childElementCount (elements s ! tr)"
    and "int (childElementCount (elements s ! tr)) < 2 ^ 52"
    and "testimonialIndex s = Finite 0"
  shows "carousel_ready (initTestimonials s)"
  using assms by (simp add: initTestimonials_def carousel_ready_def update_def Let_def)

lemma carousel_started_fields:
  "testimonialTimer carousel_started" "slides carousel_started = 3"
  "testimonialIndex carousel_started = Finite 0"
  "length (dots carousel_started) = 3"
  "prev_button carousel_started = Some 2" "next_button carousel_started = Some 3"
  unfolding carousel_started_def by code_simp+

lemma carousel_started_ready: "carousel_ready carousel_started"
  using carousel_started_fields by (simp add: carousel_ready_def)

text \<open>On three slides, \<^verbatim>\<open>goToSlide(-1)\<close> gives 2 and \<^verbatim>\<open>goToSlide(3)\<close> gives 0.\<close>

theorem goToSlide_wraps_witness:
  "testimonialIndex (goToSlide sample_platform (Finite (- 1)) carousel_started) = Finite 2 \<and>
   testimonialIndex (goToSlide sample_platform (Finite 3) carousel_started) = Finite 0"
proof -
  have n: "0 < slides carousel_started" using carousel_started_fields by simp
  have m: "safe (int (slides carousel_started))"
    using carousel_started_fields by (simp add: safe_def)
  have a: "- int (slides carousel_started) \<le> - 1" "safe (- 1 + int (slides carousel_started))"
    using carousel_started_fields by (simp_all add: safe_def)
  have b: "- int (slides carousel_started) \<le> 3" "safe (3 + int (slides carousel_started))"
    using carousel_started_fields by (simp_all add: safe_def)
  show ?thesis
    using goToSlide_wraps[OF n m a, of sample_platform] goToSlide_wraps[OF n m b, of sample_platform]
      carousel_started_fields(2)
    by simp
qed

text \<open>
  C4 as stated fails below \<open>-n\<close>: on three slides \<^verbatim>\<open>goToSlide(-4)\<close> leaves the index at
  \<open>-1\<close>, since \<^verbatim>\<open>(-4 + 3) % 3\<close> is \<open>-1\<close>.
\<close>

theorem goToSlide_below_range_counterexample:
  "slides carousel_started = 3 \<and>
   testimonialIndex (goToSlide sample_platform (Finite (- 4)) carousel_started) = Finite (- 1)"
  using carousel_started_fields(2) by (simp add: goToSlide_index safe_def)

text \<open>Three slides; after a click on the third dot and one on the previous button the
  index is 1, and the timer moves it to 2.\<close>

theorem autoplay_advances_witness:
  "testimonialIndex (run sample_platform [DotClick 2, PrevClick] carousel_started) = Finite 1 \<and>
   testimonialIndex (snd (step sample_platform Autoplay
      (run sample_platform [DotClick 2, PrevClick] carousel_started))) = Finite 2"
proof -
  have v: "testimonialIndex (run sample_platform [DotClick 2, PrevClick] carousel_started) = Finite 1"
    using carousel_started_fields
    by (simp add: goToSlide_fields goToSlide_index prev_slide_def safe_def)
  show ?thesis
    using autoplay_advances[OF carousel_started_ready, of sample_platform "[DotClick 2, PrevClick]"]
      v carousel_started_fields(2)
    by auto
qed

section \<open>Passes over the elements\<close>

lemma fold_update_length [simp]:
  "length (fold (\<lambda>x. update_at (h x) (g x)) xs els) = length els"
  by (induction xs arbitrary: els) simp_all

lemma fold_update_untouched:
  "j \<notin> h ` set xs \<Longrightarrow> fold (\<lambda>x. update_at (h x) (g x)) xs els ! j = els ! j"
  by (induction xs arbitrary: els) (auto simp: update_at_nth)

lemma fold_update_preserved:
  assumes "\<And>x e. h x = j \<Longrightarrow> Q e \<Longrightarrow> Q (g x e)" and "Q (els ! j)"
  shows "Q (fold (\<lambda>x. update_at (h x) (g x)) xs els ! j)"
  using assms(2)
proof (induction xs arbitrary: els)
  case Nil
  then show ?case by simp
next
  case (Cons x xs)
  have "Q (update_at (h x) (g x) els ! j)"
  proof (cases "h x = j \<and> h x < length els")
    case True
    then have "update_at (h x) (g x) els ! j = g x (els ! j)" by (auto simp: update_at_nth)
    then show ?thesis using True Cons.prems assms(1) by simp
  next
    case False
    then have "update_at (h x) (g x) els ! j = els ! j" by (auto simp: update_at_nth)
    then show ?thesis using Cons.prems by simp
  qed
  then show ?case using Cons.IH by simp
qed

lemma fold_update_established:
  assumes "\<And>x e. h x = j \<Longrightarrow> Q (g x e)"
    and "j \<in> h ` set xs" and "j < length els"
  shows "Q (fold (\<lambda>x. update_at (h x) (g x)) xs els ! j)"
  using assms(2,3)
proof (induction xs arbitrary: els)
  case Nil
  then show ?case by simp
next
  case (Cons x xs)
  show ?case
  proof (cases "j \<in> h ` set xs")
    case True
    then show ?thesis using Cons.IH[of "update_at (h x) (g x) els"] Cons.prems by simp
  next
    case False
    then have "h x = j" using Cons.prems by auto
    then have "Q (update_at (h x) (g x) els ! j)"
      using assms(1) Cons.prems by (simp add: update_at_nth)
    then show ?thesis
      using fold_update_preserved[of h j Q g "update_at (h x) (g x) els" xs] assms(1) by simp
  qed
qed

lemma class_toggle_has [simp]: "has_class c (class_toggle c b e) = b"
  by (auto simp: has_class_def class_toggle_def class_add_def class_remove_def)

lemma class_toggle_other [simp]:
  "c' \<noteq> c \<Longrightarrow> has_class c' (class_toggle c b e) = has_class c' e"
  by (auto simp: has_class_def class_toggle_def class_add_def class_remove_def)

lemma class_toggle_attr [simp]: "getAttribute (class_toggle c b e) k = getAttribute e k"
  by (simp add: getAttribute_def class_toggle_def class_add_def class_remove_def)

lemma toggle_panel_has [simp]:
  "has_class ''is-active'' (toggle_panel target e) = (getAttribute e ''data-panel'' = target)"
  by (simp add: toggle_panel_def)

lemma toggle_panel_attr [simp]: "getAttribute (toggle_panel target e) k = getAttribute e k"
  by (simp add: toggle_panel_def)

lemma tabs_pass_attr:
  "getAttribute (fold (\<lambda>btn. update_at btn (class_toggle c (btn = tab))) ts els ! j) k =
   getAttribute (els ! j) k"
  using fold_update_preserved[of "\<lambda>x. x" j "\<lambda>e. getAttribute e k = getAttribute (els ! j) k"
      "\<lambda>btn. class_toggle c (btn = tab)" els ts]
  by simp

lemma tabs_pass_active:
  assumes "j \<in> set ts" and "j < length els"
  shows "has_class c (fold (\<lambda>btn. update_at btn (class_toggle c (btn = tab))) ts els ! j) = (j = tab)"
  using fold_update_established[of "\<lambda>x. x" j "\<lambda>e. has_class c e = (j = tab)"
      "\<lambda>btn. class_toggle c (btn = tab)" ts els] assms
  by simp

lemma panels_pass_active:
  assumes "j \<in> set ps" and "j < length els"
  shows "has_class ''is-active'' (fold (\<lambda>panel. update_at panel (toggle_panel target)) ps els ! j) =
         (getAttribute (els ! j) ''data-panel'' = target)"
  using assms
proof (induction ps arbitrary: els)
  case Nil
  then show ?case by simp
next
  case (Cons p ps)
  let ?els = "update_at p (toggle_panel target) els"
  have attr: "getAttribute (?els ! j) ''data-panel'' = getAttribute (els ! j) ''data-panel''"
    by (simp add: update_at_nth)
  show ?case
  proof (cases "j \<in> set ps")
    case True
    then show ?thesis using Cons.IH[of ?els] Cons.prems attr by simp
  next
    case False
    then have pj: "p = j" using Cons.prems by simp
    have "fold (\<lambda>panel. update_at panel (toggle_panel target)) ps ?els ! j = ?els ! j"
      using fold_update_untouched[of j "\<lambda>x. x" ps "\<lambda>_. toggle_panel target" ?els] False
      by simp
    then show ?thesis using Cons.prems pj by (simp add: update_at_nth)
  qed
qed

lemma filter_single:
  "distinct xs \<Longrightarrow> t \<in> set xs \<Longrightarrow> filter (\<lambda>x. x = t) xs = [t]"
  by (induction xs) (auto simp: filter_empty_conv)

text \<open>
  C5, as amended. After the click handler of a tab ran, the clicked tab is the only
  active tab (no tab being a panel as well), and the active panels are exactly the
  panels whose \<^verbatim>\<open>data-panel\<close> equals the clicked tab's \<^verbatim>\<open>data-tab\<close>: one panel when the
  markup has one panel of that key.
\<close>

theorem tab_click_activates:
  assumes "tab \<in> set (tabs s)" and "distinct (tabs s)"
    and "set (tabs s) \<inter> set (panels s) = {}"
    and "\<forall>i \<in> set (tabs s) \<union> set (panels s). i < length (elements s)"
  shows "filter (\<lambda>b. has_class ''is-active'' (elements (snd (step P (TabClick tab) s)) ! b)) (tabs s)
           = [tab] \<and>
         filter (\<lambda>p. has_class ''is-active'' (elements (snd (step P (TabClick tab) s)) ! p)) (panels s)
           = filter (\<lambda>p. getAttribute (elements s ! p) ''data-panel'' =
                           getAttribute (elements s ! tab) ''data-tab'') (panels s)"
proof -
  let ?target = "getAttribute (elements s ! tab) ''data-tab''"
  let ?els1 = "fold (\<lambda>btn. update_at btn (class_toggle ''is-active'' (btn = tab))) (tabs s) (elements s)"
  let ?els2 = "fold (\<lambda>panel. update_at panel (toggle_panel ?target)) (panels s) ?els1"
  have els: "elements (snd (step P (TabClick tab) s)) = ?els2"
    using assms(1) by (simp add: tab_click_def Let_def)
  have tabs_active: "has_class ''is-active'' (?els2 ! b) = (b = tab)" if "b \<in> set (tabs s)" for b
  proof -
    have "b \<notin> set (panels s)" using that assms(3) by auto
    then have "?els2 ! b = ?els1 ! b"
      using fold_update_untouched[of b "\<lambda>x. x" "panels s" "\<lambda>_. toggle_panel ?target" ?els1]
      by simp
    moreover have "b < length (elements s)" using that assms(4) by simp
    ultimately show ?thesis using tabs_pass_active[OF that] by simp
  qed
  have panels_active: "has_class ''is-active'' (?els2 ! p) =
      (getAttribute (elements s ! p) ''data-panel'' = ?target)" if "p \<in> set (panels s)" for p
  proof -
    have "p < length ?els1" using that assms(4) by simp
    then show ?thesis
      using panels_pass_active[OF that, of ?els1 ?target] by (simp add: tabs_pass_attr)
  qed
  have "filter (\<lambda>b. has_class ''is-active'' (?els2 ! b)) (tabs s) = filter (\<lambda>b. b = tab) (tabs s)"
    by (rule filter_cong) (simp_all add: tabs_active)
  moreover have "filter (\<lambda>p. has_class ''is-active'' (?els2 ! p)) (panels s) =
      filter (\<lambda>p. getAttribute (elements s ! p) ''data-panel'' = ?target) (panels s)"
    by (rule filter_cong) (simp_all add: panels_active)
  ultimately show ?thesis
    using filter_single[OF assms(2,1)] by (simp only: els)
qed

lemma tabs_started_fields:
  "tabs tabs_started = [0, 1]" "panels tabs_started = [2, 3]"
  "length (elements tabs_started) = 4"
  unfolding tabs_started_def by code_simp+

text \<open>Two tabs and their two panels; the second tab is clicked.\<close>

theorem tab_click_activates_witness:
  "filter (\<lambda>b. has_class ''is-active''
       (elements (snd (step sample_platform (TabClick 1) tabs_started)) ! b)) [0, 1] = [1] \<and>
   filter (\<lambda>p. has_class ''is-active''
       (elements (snd (step sample_platform (TabClick 1) tabs_started)) ! p)) [2, 3] = [3]"
proof -
  have a: "1 \<in> set (tabs tabs_started)" "distinct (tabs tabs_started)"
    "set (tabs tabs_started) \<inter> set (panels tabs_started) = {}"
    "\<forall>i \<in> set (tabs tabs_started) \<union> set (panels tabs_started).
        i < length (elements tabs_started)"
    using tabs_started_fields by simp_all
  have b: "filter (\<lambda>p. getAttribute (elements tabs_started ! p) ''data-panel'' =
      getAttribute (elements tabs_started ! 1) ''data-tab'') [2, 3] = [3]"
    unfolding tabs_started_def by code_simp
  show ?thesis
    using tab_click_activates[OF a, of sample_platform] tabs_started_fields b by simp
qed

lemma twin_panels_fields:
  "tabs twin_panels_started = [0, 1]" "panels twin_panels_started = [2, 3]"
  unfolding twin_panels_started_def by code_simp+

lemma tab_panel_fields:
  "tabs tab_panel_started = [0, 1]" "panels tab_panel_started = [0, 2]"
  unfolding tab_panel_started_def by code_simp+

text \<open>
  C5 as stated fails when the panels of a key are not exactly one: with two panels of
  key \<^verbatim>\<open>a\<close> and none of key \<^verbatim>\<open>b\<close>, a click on tab \<^verbatim>\<open>a\<close> leaves two panels active and a
  click on tab \<^verbatim>\<open>b\<close> leaves none. It fails for the tabs when a tab is a panel as well:
  a click on a tab of key \<^verbatim>\<open>a\<close> that is also the panel of key \<^verbatim>\<open>b\<close> leaves no tab active.
\<close>

theorem tab_click_panel_count_counterexample:
  "tabs twin_panels_started = [0, 1] \<and> panels twin_panels_started = [2, 3] \<and>
   filter (\<lambda>p. has_class ''is-active''
        (elements (snd (step sample_platform (TabClick 0) twin_panels_started)) ! p)) [2, 3]
     = [2, 3] \<and>
   filter (\<lambda>p. has_class ''is-active''
        (elements (snd (step sample_platform (TabClick 1) twin_panels_started)) ! p)) [2, 3]
     = [] \<and>
   tabs tab_panel_started = [0, 1] \<and> panels tab_panel_started = [0, 2] \<and>
   filter (\<lambda>b. has_class ''is-active''
        (elements (snd (step sample_platform (TabClick 0) tab_panel_started)) ! b)) [0, 1]
     = []"
proof -
  have "filter (\<lambda>p. has_class ''is-active''
        (elements (snd (step sample_platform (TabClick 0) twin_panels_started)) ! p)) [2, 3]
     = [2, 3]"
    unfolding twin_panels_started_def by code_simp
  moreover have "filter (\<lambda>p. has_class ''is-active''
        (elements (snd (step sample_platform (TabClick 1) twin_panels_started)) ! p)) [2, 3]
     = []"
    unfolding twin_panels_started_def by code_simp
  moreover have "filter (\<lambda>b. has_class ''is-active''
        (elements (snd (step sample_platform (TabClick 0) tab_panel_started)) ! b)) [0, 1]
     = []"
    unfolding tab_panel_started_def by code_simp
  ultimately show ?thesis using twin_panels_fields tab_panel_fields by simp
qed

section \<open>The class of a revealed element\<close>

lemma reveal_fold_form:
  "fold (\<lambda>(target, isIntersecting) els.
           if isIntersecting then update_at target f els else els) entries els0 =
   fold (\<lambda>x. update_at (fst x) (if snd x then f else (\<lambda>e. e))) entries els0"
proof -
  have "(\<lambda>(target, isIntersecting) els. if isIntersecting then update_at target f els else els) =
        (\<lambda>x. update_at (fst x) (if snd x then f else (\<lambda>e. e)))"
    by (auto simp: fun_eq_iff update_at_id)
  then show ?thesis by simp
qed

lemma dots_fold_form:
  "fold (\<lambda>(idx, dot). update_at dot (g idx)) zs els = fold (\<lambda>x. update_at (snd x) (g (fst x))) zs els"
  by (simp add: case_prod_unfold)

lemma shown_class_add: "shown e \<Longrightarrow> shown (class_add c e)"
  by (simp add: shown_def has_class_def class_add_def)

lemma shown_add_visible: "shown (class_add ''is-visible'' e)"
  by (simp add: shown_def has_class_def class_add_def)

lemma shown_toggle_active: "shown (class_toggle ''is-active'' b e) = shown e"
  by (simp add: shown_def)

lemma shown_toggle_panel: "shown (toggle_panel t e) = shown e"
  by (simp add: shown_def toggle_panel_def)

lemma shown_set_text: "shown (set_text t e) = shown e"
  by (simp add: shown_def has_class_def set_text_def)

lemma shown_remove_loading: "shown (class_remove ''is-loading'' e) = shown e"
  by (auto simp: shown_def has_class_def class_remove_def)

lemma write_field_shown:
  assumes "write_field i t s = Inr s'"
  shows "shown (elements s' ! j) = shown (elements s ! j)"
proof -
  from assms obtain b where "elements s' = update_at b (set_text t) (elements s)"
    by (auto simp: write_field_def split: option.splits)
  then show ?thesis
    by (cases "j = b \<and> b < length (elements s)") (auto simp: update_at_nth shown_set_text)
qed

lemma write_fields_shown:
  "shown (elements (snd (write_fields fs s)) ! j) = shown (elements s ! j)"
proof (induction fs arbitrary: s)
  case Nil
  show ?case by simp
next
  case (Cons f fs)
  obtain i t where f: "f = (i, t)" by (cases f)
  show ?case
  proof (cases "write_field i t s")
    case (Inl e)
    then show ?thesis by (simp add: f)
  next
    case (Inr s1)
    then show ?thesis using Cons.IH[of s1] write_field_shown[OF Inr, of j] by (simp add: f)
  qed
qed

lemma tick_shown: "shown (elements (snd (tick P a b c s)) ! j) = shown (elements s ! j)"
  by (simp add: tick_def Let_def write_fields_shown del: write_fields.simps)

lemma update_shown: "shown (elements (update s) ! j) = shown (elements s ! j)"
  unfolding update_def dots_fold_form
  using fold_update_preserved[of snd j "\<lambda>e. shown e = shown (elements s ! j)"
      "\<lambda>x. class_toggle ''is-active'' (Finite (int (fst x)) = testimonialIndex s)" "elements s"
      "zip [0..<length (dots s)] (dots s)"]
  by (simp add: shown_toggle_active)

lemma goToSlide_shown: "shown (elements (goToSlide P k s) ! j) = shown (elements s ! j)"
  by (simp add: goToSlide_def update_shown)

lemma tab_click_shown: "shown (elements (tab_click t s) ! j) = shown (elements s ! j)"
proof -
  let ?els1 = "fold (\<lambda>btn. update_at btn (class_toggle ''is-active'' (btn = t))) (tabs s) (elements s)"
  have 1: "shown (?els1 ! j) = shown (elements s ! j)"
    using fold_update_preserved[of "\<lambda>x. x" j "\<lambda>e. shown e = shown (elements s ! j)"
        "\<lambda>btn. class_toggle ''is-active'' (btn = t)" "elements s" "tabs s"]
    by (simp add: shown_toggle_active)
  have 2: "shown (fold (\<lambda>panel. update_at panel (toggle_panel tg)) (panels s) ?els1 ! j) = shown (?els1 ! j)" for tg
    using fold_update_preserved[of "\<lambda>x. x" j "\<lambda>e. shown e = shown (?els1 ! j)"
        "\<lambda>_. toggle_panel tg" ?els1 "panels s"]
    by (simp add: shown_toggle_panel)
  show ?thesis by (simp add: tab_click_def Let_def 1 2)
qed

lemma reveal_callback_keeps:
  "shown (elements s ! j) \<Longrightarrow> shown (elements (reveal_callback entries s) ! j)"
  unfolding reveal_callback_def reveal_fold_form
  using fold_update_preserved[of fst j shown
      "\<lambda>x. if snd x then class_add ''is-visible'' else (\<lambda>e. e)" "elements s" entries]
  by (simp add: shown_class_add)

lemma reveal_callback_adds:
  assumes "(j, True) \<in> set entries" and "j < length (elements s)"
  shows "shown (elements (reveal_callback entries s) ! j)"
proof -
  let ?g = "\<lambda>x :: node \<times> bool. if snd x then class_add ''is-visible'' else (\<lambda>e. e)"
  have mono: "shown (?g x e)" if "shown e" for x e
    using that by (simp add: shown_class_add)
  have "shown (fold (\<lambda>x. update_at (fst x) (?g x)) entries els ! j)"
    if "(j, True) \<in> set entries" "j < length els" for els
    using that
  proof (induction entries arbitrary: els)
    case Nil
    then show ?case by simp
  next
    case (Cons x xs)
    let ?els = "update_at (fst x) (?g x) els"
    show ?case
    proof (cases "(j, True) \<in> set xs")
      case True
      have "j < length ?els" using Cons.prems(2) by simp
      then have "shown (fold (\<lambda>x. update_at (fst x) (?g x)) xs ?els ! j)"
        using True by (rule Cons.IH[rotated])
      then show ?thesis by simp
    next
      case False
      then have x: "x = (j, True)" using Cons.prems(1) by simp
      have "?els ! j = class_add ''is-visible'' (els ! j)"
        using Cons.prems(2) by (simp add: x update_at_nth)
      then have "shown (?els ! j)" by (simp add: shown_add_visible)
      then have "shown (fold (\<lambda>x. update_at (fst x) (?g x)) xs ?els ! j)"
        by (intro fold_update_preserved[where Q = shown]) (rule mono)
      then show ?thesis by simp
    qed
  qed
  then show ?thesis
    unfolding reveal_callback_def reveal_fold_form using assms by simp
qed

lemma step_keeps_shown:
  assumes "shown (elements s ! j)" and "back_to_top s \<noteq> Some j"
  shows "shown (elements (snd (step P e s)) ! j)"
proof (cases e)
  case ThemeToggleClick
  then show ?thesis using assms
    by (simp add: theme_click_def Let_def update_at_nth shown_set_text split: option.splits)
next
  case (Scroll y)
  then show ?thesis using assms
    by (auto simp: scroll_def update_at_nth split: option.splits)
next
  case (Intersection entries)
  then show ?thesis using assms by (simp add: reveal_callback_keeps)
next
  case (TabClick t)
  then show ?thesis using assms by (simp add: tab_click_shown)
next
  case (Tick a b c)
  then show ?thesis using assms by (simp add: tick_shown)
next
  case (DotClick i)
  then show ?thesis using assms by (simp add: goToSlide_shown)
next
  case PrevClick
  then show ?thesis using assms by (simp add: prev_slide_def goToSlide_shown)
next
  case NextClick
  then show ?thesis using assms by (simp add: next_slide_def goToSlide_shown)
next
  case Autoplay
  then show ?thesis using assms by (simp add: next_slide_def goToSlide_shown)
next
  case ArrivalTimeout
  then show ?thesis using assms
    by (simp add: arrival_timeout_def update_at_nth shown_remove_loading split: option.splits)
qed (use assms in simp_all)

lemma run_keeps_shown:
  "shown (elements s ! j) \<Longrightarrow> back_to_top s \<noteq> Some j \<Longrightarrow> shown (elements (run P evs s) ! j)"
proof (induction evs arbitrary: s)
  case Nil
  then show ?case by (simp add: run_def)
next
  case (Cons e evs)
  show ?case
    unfolding run_Cons
    by (rule Cons.IH) (simp_all add: step_keeps_shown Cons.prems step_fields del: step.simps)
qed

text \<open>
  C8, as amended. An observed element that is not the back-to-top button, once the
  intersection callback gave it the visibility class, carries the class after every
  run of events.
\<close>

theorem revealed_stays_visible:
  assumes "j \<in> set (observed s)" and "j < length (elements s)"
    and "back_to_top s \<noteq> Some j"
    and "(j, True) \<in> set entries" and "set (map fst entries) \<subseteq> set (observed s)"
  shows "has_class ''is-visible'' (elements (run P (Intersection entries # evs) s) ! j)"
proof -
  have "shown (elements (snd (step P (Intersection entries) s)) ! j)"
    using assms(2,4,5) by (simp add: reveal_callback_adds)
  then have "shown (elements (run P evs (snd (step P (Intersection entries) s))) ! j)"
    using assms(3) by (intro run_keeps_shown) (simp_all add: step_fields del: step.simps)
  then show ?thesis by (simp add: shown_def del: step.simps)
qed

lemma reveal_started_fields:
  "observed reveal_started = [0, 1]" "back_to_top reveal_started = Some 1"
  "length (elements reveal_started) = 2"
  unfolding reveal_started_def by code_simp+

text \<open>A revealed element through a scroll, a later callback and the arrival timeout.\<close>

theorem revealed_stays_visible_witness:
  "has_class ''is-visible''
     (elements (run sample_platform
        [Intersection [(0, True), (1, True)], Scroll 0, Intersection [(0, False)], ArrivalTimeout]
        reveal_started) ! 0)"
proof -
  have a: "0 \<in> set (observed reveal_started)" "0 < length (elements reveal_started)"
    "back_to_top reveal_started \<noteq> Some 0"
    "(0, True) \<in> set [(0, True), (1, True)]"
    "set (map fst [(0::nat, True), (1, True)]) \<subseteq> set (observed reveal_started)"
    using reveal_started_fields by simp_all
  show ?thesis by (rule revealed_stays_visible[OF a])
qed

text \<open>
  C8 as stated fails for a back-to-top button of class \<^verbatim>\<open>reveal\<close>: the callback gives
  it the class, and the scroll handler removes it at a scroll position of 0.
\<close>

theorem back_to_top_reveal_counterexample:
  "observed reveal_started = [0, 1] \<and> back_to_top reveal_started = Some 1 \<and>
   has_class ''is-visible''
     (elements (run sample_platform [Intersection [(0, True), (1, True)]] reveal_started) ! 1) \<and>
   \<not> has_class ''is-visible''
     (elements (run sample_platform [Intersection [(0, True), (1, True)], Scroll 0]
        reveal_started) ! 1)"
proof -
  have "has_class ''is-visible''
     (elements (run sample_platform [Intersection [(0, True), (1, True)]] reveal_started) ! 1)"
    unfolding reveal_started_def by code_simp
  moreover have "\<not> has_class ''is-visible''
     (elements (run sample_platform [Intersection [(0, True), (1, True)], Scroll 0]
        reveal_started) ! 1)"
    unfolding reveal_started_def by code_simp
  ultimately show ?thesis using reveal_started_fields by simp
qed

section \<open>Countdown: one clock value, and the claim\<close>

lemma digit_char_digit: "d < 10 \<Longrightarrow> digit_char d \<in> set ''0123456789''"
  unfolding digit_char_def by (rule nth_mem) simp

lemma nat_to_string_digits: "set (nat_to_string n) \<subseteq> set ''0123456789''"
proof (induction n rule: nat_to_string.induct)
  case (1 n)
  show ?case
  proof (cases "n < 10")
    case True
    then show ?thesis
      using digit_char_digit[of n] by (subst nat_to_string.simps) simp
  next
    case False
    have "digit_char (n mod 10) \<in> set ''0123456789''"
      by (rule digit_char_digit) simp
    then show ?thesis
      using False 1 by (subst nat_to_string.simps) simp
  qed
qed

lemma pad_nonneg:
  assumes "0 \<le> d" and "safe d"
  shows "CHR ''-'' \<notin> set (pad P (Finite d))"
proof -
  have "CHR ''-'' \<notin> set (nat_to_string (nat d))"
    using nat_to_string_digits[of "nat d"] by auto
  then show ?thesis
    using assms by (auto simp: pad_def int_to_string_def Let_def)
qed

lemma floor_quot_le:
  assumes "0 \<le> r" and "0 < c"
  shows "\<lfloor>of_int r / of_int c :: rat\<rfloor> \<le> r"
proof -
  have "r div c \<le> r"
  proof (cases "c = 1")
    case True
    then show ?thesis by simp
  next
    case False
    then have "1 < c" using assms(2) by simp
    show ?thesis
    proof (cases "r = 0")
      case True
      then show ?thesis by simp
    next
      case False
      then have "r div c < r"
        using assms(1) \<open>1 < c\<close> by (intro int_div_less_self) simp_all
      then show ?thesis by simp
    qed
  qed
  then show ?thesis by (simp add: floor_divide_of_int_eq)
qed

lemma js_mod_nonneg:
  assumes "0 \<le> x" and "0 < m"
  shows "0 \<le> js_mod x m \<and> js_mod x m < m"
proof -
  have q: "0 \<le> x / m" using assms by simp
  have "of_int \<lfloor>x / m\<rfloor> * m \<le> x"
    using of_int_floor_le[of "x / m"] assms(2) by (simp only: pos_le_divide_eq)
  moreover have "x / m < of_int \<lfloor>x / m\<rfloor> + 1"
    by linarith
  then have "x < (of_int \<lfloor>x / m\<rfloor> + 1) * m"
    using assms(2) by (simp only: pos_divide_less_eq)
  ultimately show ?thesis
    using q by (simp add: js_mod_def truncate_def algebra_simps)
qed

lemma floor_quot_rem_range:
  assumes "0 \<le> r" and "r < 2 ^ 52" and "0 < c" and "c < 2 ^ 27" and "0 < m"
  shows "\<exists>v. floor_quot_rem P (Finite r) c m = Finite v \<and> 0 \<le> v \<and> v < m"
proof -
  have x: "0 \<le> (of_int r / of_int c :: rat)" using assms by simp
  have m: "0 < (of_int m :: rat)" using assms by simp
  note b = js_mod_nonneg[OF x m]
  have "\<lfloor>js_mod (of_int r / of_int c) (of_int m)\<rfloor> < m"
    using b by (simp add: floor_less_iff)
  moreover have "0 \<le> \<lfloor>js_mod (of_int r / of_int c) (of_int m)\<rfloor>"
    using b by simp
  ultimately show ?thesis
    using assms by (simp add: exact_quotient_def)
qed

lemma floor_quot_range:
  assumes "0 \<le> r" and "r < 2 ^ 52" and "0 < c" and "c < 2 ^ 27"
  shows "\<exists>v. floor_quot P (Finite r) c = Finite v \<and> 0 \<le> v \<and> v \<le> r"
  using assms floor_quot_le[of r c] by (simp add: exact_quotient_def)

text \<open>A tick that reads one clock value: never a negative component, the target ahead.\<close>

lemma tick_one_clock:
  assumes "countdownTarget s = Some (Finite t)" and "0 \<le> t" and "t < 2 ^ 51"
    and "0 \<le> now" and "now < 2 ^ 51"
  shows "\<exists>t' d h m sec.
    tick P now now now s =
      write_fields [(''days'', pad P (Finite d)), (''hours'', pad P (Finite h)),
                    (''minutes'', pad P (Finite m)), (''seconds'', pad P (Finite sec))]
        (s\<lparr>countdownTarget := Some (Finite t')\<rparr>) \<and>
    t' = (if t \<le> now then now + three_days else t) \<and> now < t' \<and>
    0 \<le> d \<and> 0 \<le> h \<and> h < 24 \<and> 0 \<le> m \<and> m < 60 \<and> 0 \<le> sec \<and> sec < 60 \<and>
    (\<forall>v \<in> {d, h, m, sec}. CHR ''-'' \<notin> set (pad P (Finite v)))"
proof -
  define t' where "t' = (if t \<le> now then now + three_days else t)"
  define s1 where "s1 = s\<lparr>countdownTarget := Some (Finite t')\<rparr>"
  have safe: "safe t" "safe now" "safe (t - now)" "safe three_days" "safe (now + three_days)"
    using assms by (simp_all add: safe_def three_days_def)
  have diff: "num_sub P (target_num s) (Finite now) = Finite (t - now)"
    using safe by (simp add: target_num_def assms(1))
  have clip: "time_clip P (num_add P (Finite now) (Finite three_days)) = Finite (now + three_days)"
    using safe assms by (simp add: three_days_def)
  have s1: "(if num_nonpositive P (Finite (t - now))
             then s\<lparr>countdownTarget := Some (Finite (now + three_days))\<rparr> else s) = s1"
    using safe(3) assms(1) by (simp add: s1_def t'_def)
  have ahead: "now < t'" by (simp add: t'_def three_days_def)
  have r: "0 \<le> t' - now" "t' - now < 2 ^ 52"
    using ahead assms by (simp_all add: t'_def three_days_def)
  have rem: "num_sub P (target_num s1) (Finite now) = Finite (t' - now)"
    using assms safe by (simp add: target_num_def s1_def t'_def safe_def three_days_def)
  obtain d where d: "floor_quot P (Finite (t' - now)) (1000 * 60 * 60 * 24) = Finite d" "0 \<le> d"
      "d \<le> t' - now"
    using floor_quot_range[OF r, of "1000 * 60 * 60 * 24" P] by auto
  obtain h where h: "floor_quot_rem P (Finite (t' - now)) (1000 * 60 * 60) 24 = Finite h"
      "0 \<le> h" "h < 24"
    using floor_quot_rem_range[OF r, of "1000 * 60 * 60" 24 P] by auto
  obtain m where m: "floor_quot_rem P (Finite (t' - now)) (1000 * 60) 60 = Finite m"
      "0 \<le> m" "m < 60"
    using floor_quot_rem_range[OF r, of "1000 * 60" 60 P] by auto
  obtain sec where sec: "floor_quot_rem P (Finite (t' - now)) 1000 60 = Finite sec"
      "0 \<le> sec" "sec < 60"
    using floor_quot_rem_range[OF r, of 1000 60 P] by auto
  have "tick P now now now s =
      write_fields [(''days'', pad P (Finite d)), (''hours'', pad P (Finite h)),
                    (''minutes'', pad P (Finite m)), (''seconds'', pad P (Finite sec))] s1"
    unfolding tick_def Let_def diff clip s1 rem d(1) h(1) m(1) sec(1) ..
  moreover have "safe d" "safe h" "safe m" "safe sec"
    using d(2,3) h(2,3) m(2,3) sec(2,3) r(2) by (simp_all add: safe_def)
  then have "\<forall>v \<in> {d, h, m, sec}. CHR ''-'' \<notin> set (pad P (Finite v))"
    using d(2) h(2) m(2) sec(2) by (simp add: pad_nonneg)
  ultimately show ?thesis
    using ahead d(2) h(2,3) m(2,3) sec(2,3) unfolding s1_def t'_def by blast
qed

lemma countdown_started_fields:
  "countdownTarget countdown_started = Some (Finite 1700259200000)"
  "countdown_timer countdown_started"
  "map textContent (elements countdown_started) = [''03'', ''00'', ''00'', ''00'']"
  unfolding countdown_started_def by code_simp+

text \<open>
  C3. The countdown is meant to show no negative component and to leave its target in
  the future. \<^verbatim>\<open>tick\<close> reads the clock again for \<^verbatim>\<open>remaining\<close>: with the target one
  millisecond ahead at the first reading and one millisecond behind at the last, no
  re-base happens, every component shown is \<open>-1\<close>, and the target is in the past.
\<close>

theorem tick_clock_advance_shows_negative:
  "countdownTarget countdown_started = Some (Finite 1700259200000) \<and>
   fst (step sample_platform (Tick 1700259199999 1700259200000 1700259200001) countdown_started)
     = Normal \<and>
   map textContent (elements (snd (step sample_platform
       (Tick 1700259199999 1700259200000 1700259200001) countdown_started)))
     = [''-1'', ''-1'', ''-1'', ''-1''] \<and>
   countdownTarget (snd (step sample_platform
       (Tick 1700259199999 1700259200000 1700259200001) countdown_started))
     = Some (Finite 1700259200000)"
proof -
  have "fst (step sample_platform (Tick 1700259199999 1700259200000 1700259200001) countdown_started)
     = Normal"
    unfolding countdown_started_def by code_simp
  moreover have "map textContent (elements (snd (step sample_platform
       (Tick 1700259199999 1700259200000 1700259200001) countdown_started)))
     = [''-1'', ''-1'', ''-1'', ''-1'']"
    unfolding countdown_started_def by code_simp
  moreover have "countdownTarget (snd (step sample_platform
       (Tick 1700259199999 1700259200000 1700259200001) countdown_started))
     = Some (Finite 1700259200000)"
    unfolding countdown_started_def by code_simp
  ultimately show ?thesis using countdown_started_fields(1) by simp
qed

end
